theory Spec2Isabelle
  imports Main "HOL-Library.Multiset"
begin

section \<open>JavaScript strings and regular expressions\<close>

text \<open>
  A JavaScript string is a sequence of UTF-16 code units. The patterns of \<^verbatim>\<open>App.tsx\<close>
  name characters outside ASCII (en dash, em dash, the Hebrew sof pasuq and paseq), so a
  string is modelled as the list of its code units, each a natural number. \<open>str\<close> embeds
  an ASCII literal.
\<close>

type_synonym jsstring = "nat list"

definition str :: "string \<Rightarrow> jsstring" where
  "str s = map of_char s"

text \<open>
  The characters matched by \<^verbatim>\<open>\s\<close> and removed by \<^verbatim>\<open>String.prototype.trim\<close>: the
  WhiteSpace and LineTerminator code points of ECMAScript (TAB, LF, VT, FF, CR, SP, NBSP,
  U+1680, U+2000 to U+200A, U+2028, U+2029, U+202F, U+205F, U+3000, U+FEFF).
\<close>

definition white_space :: "nat list" where
  "white_space = [9, 10, 11, 12, 13, 32, 160, 5760,
     8192, 8193, 8194, 8195, 8196, 8197, 8198, 8199, 8200, 8201, 8202,
     8232, 8233, 8239, 8287, 12288, 65279]"

definition is_space :: "nat \<Rightarrow> bool" where
  "is_space c = (c \<in> set white_space)"

definition trim :: "jsstring \<Rightarrow> jsstring" where
  "trim s = rev (dropWhile is_space (rev (dropWhile is_space s)))"

text \<open>
  The fragment of regular expressions the two patterns use: character classes,
  concatenation, alternation, \<^verbatim>\<open>+\<close> and \<^verbatim>\<open>*\<close>. \<open>Empty\<close> (the empty string only) and
  \<open>Nothing\<close> (no string) arise while matching. Every alternative of both patterns is
  anchored by \<^verbatim>\<open>^\<close> and \<^verbatim>\<open>$\<close> and no flag is set, so \<^verbatim>\<open>RegExp.prototype.test\<close>
  succeeds exactly when the whole string matches; \<open>regex_test\<close> decides that by
  derivatives, one code unit at a time.
\<close>

datatype regex =
    Nothing
  | Empty
  | Cls "nat list"
  | Seq regex regex
  | Alt regex regex
  | Plus regex
  | Star regex

fun nullable :: "regex \<Rightarrow> bool" where
  "nullable Nothing = False"
| "nullable Empty = True"
| "nullable (Cls cs) = False"
| "nullable (Seq r s) = (nullable r \<and> nullable s)"
| "nullable (Alt r s) = (nullable r \<or> nullable s)"
| "nullable (Plus r) = nullable r"
| "nullable (Star r) = True"

fun deriv :: "nat \<Rightarrow> regex \<Rightarrow> regex" where
  "deriv c Nothing = Nothing"
| "deriv c Empty = Nothing"
| "deriv c (Cls cs) = (if c \<in> set cs then Empty else Nothing)"
| "deriv c (Seq r s) =
     (if nullable r then Alt (Seq (deriv c r) s) (deriv c s) else Seq (deriv c r) s)"
| "deriv c (Alt r s) = Alt (deriv c r) (deriv c s)"
| "deriv c (Plus r) = Seq (deriv c r) (Star r)"
| "deriv c (Star r) = Seq (deriv c r) (Star r)"

fun regex_test :: "regex \<Rightarrow> jsstring \<Rightarrow> bool" where
  "regex_test r [] = nullable r"
| "regex_test r (c # cs) = regex_test (deriv c r) cs"

section \<open>Text classifier (App.tsx)\<close>

text \<open>
  \<open>PUNCTUATION_REGEX\<close> is one anchored class under \<^verbatim>\<open>+\<close>: \<^verbatim>\<open>\s\<close>, the ASCII characters
  \<^verbatim>\<open>. , ; : ! ? ' " ( ) [ ] -\<close>, the em dash U+2014, the en dash U+2013, the sof pasuq
  U+05C3 and the paseq U+05C0. \<open>SKIP_MARKERS_REGEX\<close> has three anchored alternatives:
  one or more of hyphen, en dash and em dash; \<^verbatim>\<open>\.+\s*\.+\s*\.+\<close>; and \<^verbatim>\<open>vvv\<close>.
\<close>

definition punctuation_class :: "nat list" where
  "punctuation_class = white_space @
     [46, 44, 59, 58, 33, 63, 39, 34, 40, 41, 91, 93, 45, 8212, 8211, 1475, 1472]"

definition PUNCTUATION_REGEX :: regex where
  "PUNCTUATION_REGEX = Plus (Cls punctuation_class)"

definition dash_class :: "nat list" where
  "dash_class = [45, 8211, 8212]"

definition SKIP_MARKERS_REGEX :: regex where
  "SKIP_MARKERS_REGEX =
     Alt (Plus (Cls dash_class))
    (Alt (Seq (Plus (Cls [46])) (Seq (Star (Cls white_space))
           (Seq (Plus (Cls [46])) (Seq (Star (Cls white_space)) (Plus (Cls [46]))))))
         (Seq (Cls [118]) (Seq (Cls [118]) (Cls [118]))))"

definition isPunctuation :: "jsstring \<Rightarrow> bool" where
  "isPunctuation text = regex_test PUNCTUATION_REGEX text"

text \<open>
  \<^verbatim>\<open>strongs && ...\<close> tests the truthiness of a \<^verbatim>\<open>string | null\<close>: \<^verbatim>\<open>null\<close> and the
  empty string are both falsy.
\<close>

definition present :: "jsstring option \<Rightarrow> bool" where
  "present strongs = (case strongs of None \<Rightarrow> False | Some s \<Rightarrow> s \<noteq> [])"

text \<open>
  \<^verbatim>\<open>const shouldSkipWord = (text, strongs) => strongs && SKIP_MARKERS_REGEX.test(text.trim())\<close>
  The callers use the result as a condition only, so the model returns its truthiness.
\<close>

definition shouldSkipWord :: "jsstring \<Rightarrow> jsstring option \<Rightarrow> bool" where
  "shouldSkipWord text strongs = (present strongs \<and> regex_test SKIP_MARKERS_REGEX (trim text))"

text \<open>
  \<^verbatim>\<open>const cleanText = (text) => text.replace(/[\[\]{}]/g, '')\<close>
  A global replace with a pattern that matches one code unit of a class: scanning from
  the left, a code unit of the class is replaced by the replacement, any other is kept.
\<close>

fun replace_class :: "nat list \<Rightarrow> jsstring \<Rightarrow> jsstring \<Rightarrow> jsstring" where
  "replace_class cls rep [] = []"
| "replace_class cls rep (c # cs) =
     (if c \<in> set cls then rep @ replace_class cls rep cs else c # replace_class cls rep cs)"

definition bracket_class :: "nat list" where
  "bracket_class = [91, 93, 123, 125]"

definition cleanText :: "jsstring \<Rightarrow> jsstring" where
  "cleanText text = replace_class bracket_class [] text"

section \<open>Alignment engine (App.tsx, renderVerse)\<close>

text \<open>
  \<^verbatim>\<open>type BSBWord = [string, string | null]\<close> and
  \<^verbatim>\<open>type BSBVerse = { v: number, w: BSBWord[], heb?: BSBWord[], grk?: BSBWord[] }\<close>.
  The one-letter fields \<^verbatim>\<open>v\<close> and \<^verbatim>\<open>w\<close> carry the prefix \<open>verse_\<close> here, so that they
  do not capture variables.
\<close>

type_synonym BSBWord = "jsstring \<times> jsstring option"

record BSBVerse =
  verse_v :: nat
  verse_w :: "BSBWord list"
  heb :: "BSBWord list option"
  grk :: "BSBWord list option"

text \<open>
  \<^verbatim>\<open>type WordPair = { original: string; english: string; strongs: string }\<close>. The field
  \<^verbatim>\<open>strongs\<close> is filled by \<^verbatim>\<open>strongs!\<close>, which copies the word's second component
  unchanged (the assertion has no run-time effect), so the model keeps its type.
\<close>

record WordPair =
  original :: jsstring
  english :: jsstring
  strongs :: "jsstring option"

text \<open>
  \<^verbatim>\<open>const originalWords = verse.heb || verse.grk || []\<close>: an array is truthy even when it
  is empty, so only an absent \<^verbatim>\<open>heb\<close> falls through to \<^verbatim>\<open>grk\<close>.
\<close>

definition originalWords :: "BSBVerse \<Rightarrow> BSBWord list" where
  "originalWords vs =
     (case heb vs of Some h \<Rightarrow> h
      | None \<Rightarrow> (case grk vs of Some g \<Rightarrow> g | None \<Rightarrow> []))"

text \<open>
  \<^verbatim>\<open>for (const [text, strongs] of originalWords)
    if (strongs && !originalWordMap.has(strongs)) originalWordMap.set(strongs, text)\<close>
\<close>

fun buildOriginalWordMap ::
  "BSBWord list \<Rightarrow> (jsstring \<rightharpoonup> jsstring) \<Rightarrow> (jsstring \<rightharpoonup> jsstring)" where
  "buildOriginalWordMap [] m = m"
| "buildOriginalWordMap ((txt, s) # rest) m =
     buildOriginalWordMap rest
       (case s of
          None \<Rightarrow> m
        | Some k \<Rightarrow> (if k \<noteq> [] \<and> m k = None then m(k \<mapsto> txt) else m))"

text \<open>
  \<^verbatim>\<open>originalWordMap.get(strongs!) || ''\<close>: \<^verbatim>\<open>get\<close> of a key that was never set
  (\<^verbatim>\<open>null\<close> never is) gives \<^verbatim>\<open>undefined\<close>, and \<^verbatim>\<open>undefined\<close> and the empty string both
  become the empty string.
\<close>

definition map_get :: "(jsstring \<rightharpoonup> jsstring) \<Rightarrow> jsstring option \<Rightarrow> jsstring option" where
  "map_get m s = (case s of None \<Rightarrow> None | Some k \<Rightarrow> m k)"

definition or_empty :: "jsstring option \<Rightarrow> jsstring" where
  "or_empty x = (case x of None \<Rightarrow> [] | Some t \<Rightarrow> t)"

text \<open>
  The inner loop of the original-order branch, started at index \<open>i\<close> on the English
  entries from \<open>i\<close> on:
  \<^verbatim>\<open>for (let i = 0; i < verse.w.length; i++) {
    const [engText, engStrongs] = verse.w[i]
    if (engStrongs === strongs && !usedEnglishIndices.has(i)) {
      englishText = cleanText(engText); usedEnglishIndices.add(i); break } }\<close>
  It returns \<^verbatim>\<open>englishText\<close> (initially the empty string) and the updated set.
\<close>

fun scanEnglish ::
  "BSBWord list \<Rightarrow> nat \<Rightarrow> jsstring option \<Rightarrow> nat set \<Rightarrow> jsstring \<times> nat set" where
  "scanEnglish [] i s used = ([], used)"
| "scanEnglish ((engText, engStrongs) # rest) i s used =
     (if engStrongs = s \<and> i \<notin> used then (cleanText engText, insert i used)
      else scanEnglish rest (Suc i) s used)"

text \<open>
  The \<^verbatim>\<open>map\<close> callback of the original-order branch, run over the filtered original
  entries with the set \<^verbatim>\<open>usedEnglishIndices\<close> threaded through.
\<close>

fun alignOriginalOrder :: "BSBWord list \<Rightarrow> BSBWord list \<Rightarrow> nat set \<Rightarrow> WordPair list" where
  "alignOriginalOrder [] ws used = []"
| "alignOriginalOrder ((origText, s) # rest) ws used =
     (case scanEnglish ws 0 s used of
        (englishText, used') \<Rightarrow>
          \<lparr>original = origText, english = englishText, strongs = s\<rparr>
            # alignOriginalOrder rest ws used')"

text \<open>
  The interlinear branch of \<^verbatim>\<open>renderVerse\<close>: the value of \<^verbatim>\<open>wordPairs\<close>, as a function of
  the flag \<^verbatim>\<open>useHebrewWordOrder\<close> and the verse.
\<close>

definition wordPairs :: "bool \<Rightarrow> BSBVerse \<Rightarrow> WordPair list" where
  "wordPairs useHebrewWordOrder vs =
     (let originalWordMap = buildOriginalWordMap (originalWords vs) Map.empty in
      if useHebrewWordOrder \<and> length (originalWords vs) > 0 then
        alignOriginalOrder
          (filter (\<lambda>(txt, s). present s \<and> \<not> isPunctuation txt) (originalWords vs))
          (verse_w vs) {}
      else
        map (\<lambda>(txt, s).
              \<lparr>original = or_empty (map_get originalWordMap s),
               english = cleanText txt, strongs = s\<rparr>)
          (filter (\<lambda>(txt, s). present s \<and> \<not> isPunctuation txt \<and> \<not> shouldSkipWord txt s)
             (verse_w vs)))"

section \<open>Book tables (bsbDataApi.ts)\<close>

definition BOOK_CODES :: "(nat \<times> jsstring) list" where
  "BOOK_CODES = [
     (1, str ''GEN''), (2, str ''EXO''), (3, str ''LEV''), (4, str ''NUM''),
     (5, str ''DEU''), (6, str ''JOS''), (7, str ''JDG''), (8, str ''RUT''),
     (9, str ''1SA''), (10, str ''2SA''), (11, str ''1KI''), (12, str ''2KI''),
     (13, str ''1CH''), (14, str ''2CH''), (15, str ''EZR''), (16, str ''NEH''),
     (17, str ''EST''), (18, str ''JOB''), (19, str ''PSA''), (20, str ''PRO''),
     (21, str ''ECC''), (22, str ''SNG''), (23, str ''ISA''), (24, str ''JER''),
     (25, str ''LAM''), (26, str ''EZK''), (27, str ''DAN''), (28, str ''HOS''),
     (29, str ''JOL''), (30, str ''AMO''), (31, str ''OBA''), (32, str ''JON''),
     (33, str ''MIC''), (34, str ''NAM''), (35, str ''HAB''), (36, str ''ZEP''),
     (37, str ''HAG''), (38, str ''ZEC''), (39, str ''MAL''), (40, str ''MAT''),
     (41, str ''MRK''), (42, str ''LUK''), (43, str ''JHN''), (44, str ''ACT''),
     (45, str ''ROM''), (46, str ''1CO''), (47, str ''2CO''), (48, str ''GAL''),
     (49, str ''EPH''), (50, str ''PHP''), (51, str ''COL''), (52, str ''1TH''),
     (53, str ''2TH''), (54, str ''1TI''), (55, str ''2TI''), (56, str ''TIT''),
     (57, str ''PHM''), (58, str ''HEB''), (59, str ''JAS''), (60, str ''1PE''),
     (61, str ''2PE''), (62, str ''1JN''), (63, str ''2JN''), (64, str ''3JN''),
     (65, str ''JUD''), (66, str ''REV'')]"

text \<open>
  \<open>BOOK_NUMBERS\<close> and \<open>BOOK_ALIASES\<close> are plain objects, so \<^verbatim>\<open>obj[key]\<close> finds an own
  property, or else a property inherited from \<^verbatim>\<open>Object.prototype\<close>, or else
  \<^verbatim>\<open>undefined\<close>. The inherited names are those of ECMAScript (with its annex B). An
  inherited member is a function (for \<^verbatim>\<open>__proto__\<close> the prototype object itself):
  neither a number nor a string, and truthy.
\<close>

datatype 'a property = Undefined | Own 'a | Inherited

definition object_prototype_names :: "jsstring list" where
  "object_prototype_names =
     [str ''constructor'', str ''hasOwnProperty'', str ''isPrototypeOf'',
      str ''propertyIsEnumerable'', str ''toLocaleString'', str ''toString'', str ''valueOf'',
      str ''__proto__'', str ''__defineGetter__'', str ''__defineSetter__'',
      str ''__lookupGetter__'', str ''__lookupSetter__'']"

definition object_get :: "(jsstring \<times> 'a) list \<Rightarrow> jsstring \<Rightarrow> 'a property" where
  "object_get entries k =
     (case map_of entries k of
        Some x \<Rightarrow> Own x
      | None \<Rightarrow> (if k \<in> set object_prototype_names then Inherited else Undefined))"

text \<open>
  \<^verbatim>\<open>Object.fromEntries(Object.entries(BOOK_CODES).map(([num, code]) => [code, parseInt(num)]))\<close>:
  a later entry with the same key would replace an earlier one.
\<close>

definition BOOK_NUMBERS :: "jsstring \<Rightarrow> nat property" where
  "BOOK_NUMBERS k = object_get (rev (map (\<lambda>(num, code). (code, num)) BOOK_CODES)) k"

definition BOOK_ALIASES :: "(jsstring \<times> jsstring) list" where
  "BOOK_ALIASES = [
     (str ''GEN'', str ''GEN''), (str ''EXO'', str ''EXO''), (str ''LEV'', str ''LEV''),
     (str ''NUM'', str ''NUM''), (str ''DEU'', str ''DEU''), (str ''JOS'', str ''JOS''),
     (str ''JDG'', str ''JDG''), (str ''RUT'', str ''RUT''), (str ''1SA'', str ''1SA''),
     (str ''2SA'', str ''2SA''), (str ''1KI'', str ''1KI''), (str ''2KI'', str ''2KI''),
     (str ''1CH'', str ''1CH''), (str ''2CH'', str ''2CH''), (str ''EZR'', str ''EZR''),
     (str ''NEH'', str ''NEH''), (str ''EST'', str ''EST''), (str ''JOB'', str ''JOB''),
     (str ''PSA'', str ''PSA''), (str ''PRO'', str ''PRO''), (str ''ECC'', str ''ECC''),
     (str ''SNG'', str ''SNG''), (str ''SOL'', str ''SNG''), (str ''ISA'', str ''ISA''),
     (str ''JER'', str ''JER''), (str ''LAM'', str ''LAM''), (str ''EZK'', str ''EZK''),
     (str ''EZE'', str ''EZK''), (str ''DAN'', str ''DAN''), (str ''HOS'', str ''HOS''),
     (str ''JOL'', str ''JOL''), (str ''JOE'', str ''JOL''), (str ''AMO'', str ''AMO''),
     (str ''OBA'', str ''OBA''), (str ''OBD'', str ''OBA''), (str ''JON'', str ''JON''),
     (str ''MIC'', str ''MIC''), (str ''NAM'', str ''NAM''), (str ''NAH'', str ''NAM''),
     (str ''HAB'', str ''HAB''), (str ''ZEP'', str ''ZEP''), (str ''HAG'', str ''HAG''),
     (str ''ZEC'', str ''ZEC''), (str ''MAL'', str ''MAL''), (str ''MAT'', str ''MAT''),
     (str ''MRK'', str ''MRK''), (str ''MAR'', str ''MRK''), (str ''LUK'', str ''LUK''),
     (str ''JHN'', str ''JHN''), (str ''JOH'', str ''JHN''), (str ''ACT'', str ''ACT''),
     (str ''ROM'', str ''ROM''), (str ''1CO'', str ''1CO''), (str ''2CO'', str ''2CO''),
     (str ''GAL'', str ''GAL''), (str ''EPH'', str ''EPH''), (str ''PHP'', str ''PHP''),
     (str ''PHI'', str ''PHP''), (str ''COL'', str ''COL''), (str ''1TH'', str ''1TH''),
     (str ''2TH'', str ''2TH''), (str ''1TI'', str ''1TI''), (str ''2TI'', str ''2TI''),
     (str ''TIT'', str ''TIT''), (str ''PHM'', str ''PHM''), (str ''HEB'', str ''HEB''),
     (str ''JAS'', str ''JAS''), (str ''JAM'', str ''JAS''), (str ''1PE'', str ''1PE''),
     (str ''2PE'', str ''2PE''), (str ''1JN'', str ''1JN''), (str ''1JO'', str ''1JN''),
     (str ''2JN'', str ''2JN''), (str ''2JO'', str ''2JN''), (str ''3JN'', str ''3JN''),
     (str ''3JO'', str ''3JN''), (str ''JUD'', str ''JUD''), (str ''JDE'', str ''JUD''),
     (str ''REV'', str ''REV'')]"

text \<open>
  \<^verbatim>\<open>x || 0\<close> and \<^verbatim>\<open>x || 1\<close> on the result of a lookup in \<open>BOOK_NUMBERS\<close>. The value is
  a number, or the inherited member itself (\<open>Obj\<close>), which \<^verbatim>\<open>||\<close> lets through because it
  is truthy. In arithmetic and in comparisons with numbers \<open>Obj\<close> converts to \<^verbatim>\<open>NaN\<close>.
\<close>

datatype jsvalue = Num nat | Obj

definition or_number :: "nat property \<Rightarrow> nat \<Rightarrow> jsvalue" where
  "or_number x d =
     (case x of
        Undefined \<Rightarrow> Num d
      | Own n \<Rightarrow> (if n = 0 then Num d else Num n)
      | Inherited \<Rightarrow> Obj)"

text \<open>
  \<^verbatim>\<open>String.prototype.toUpperCase\<close> follows the Unicode case mappings, which are not part
  of this repository; the functions that call it take it as the parameter
  \<open>toUpperCase\<close>.
  \<^verbatim>\<open>export function normalizeBookCode(bookCode) {
    if (!bookCode) return null
    const upper = bookCode.toUpperCase()
    return BOOK_ALIASES[upper] || null }\<close>
  The result is \<^verbatim>\<open>null\<close>, a code of the table, or (\<open>Member\<close>) an inherited member of the
  object when \<^verbatim>\<open>upper\<close> is an inherited name.
\<close>

datatype normalized_code = Null | Book_code jsstring | Member

definition normalizeBookCode ::
  "(jsstring \<Rightarrow> jsstring) \<Rightarrow> jsstring \<Rightarrow> normalized_code" where
  "normalizeBookCode toUpperCase bookCode =
     (if bookCode = [] then Null
      else (case object_get BOOK_ALIASES (toUpperCase bookCode) of
              Undefined \<Rightarrow> Null
            | Own a \<Rightarrow> (if a = [] then Null else Book_code a)
            | Inherited \<Rightarrow> Member))"

text \<open>
  \<^verbatim>\<open>export function getBookNumber(bookCode) {
    const normalized = normalizeBookCode(bookCode)
    return normalized ? BOOK_NUMBERS[normalized] || 0 : 0 }\<close>
  When \<^verbatim>\<open>normalized\<close> is an inherited member, the key of the lookup is the member
  converted to a string (the source text of a function, or \<^verbatim>\<open>[object Object]\<close>), which
  is neither a key of \<open>BOOK_NUMBERS\<close> nor an inherited name: the lookup gives
  \<^verbatim>\<open>undefined\<close> and the result is 0.
\<close>

definition getBookNumber :: "(jsstring \<Rightarrow> jsstring) \<Rightarrow> jsstring \<Rightarrow> jsvalue" where
  "getBookNumber toUpperCase bookCode =
     (case normalizeBookCode toUpperCase bookCode of
        Null \<Rightarrow> Num 0
      | Book_code normalized \<Rightarrow>
          (if normalized = [] then Num 0 else or_number (BOOK_NUMBERS normalized) 0)
      | Member \<Rightarrow> Num 0)"

text \<open>
  The older copy of the module (unnamed/part_001) has the same \<open>BOOK_CODES\<close> and
  \<open>BOOK_NUMBERS\<close>, no alias table, and
  \<^verbatim>\<open>export function getBookNumber(bookCode) { return BOOK_NUMBERS[bookCode] || 1 }\<close>
\<close>

definition getBookNumber_old :: "jsstring \<Rightarrow> jsvalue" where
  "getBookNumber_old bookCode = or_number (BOOK_NUMBERS bookCode) 1"

section \<open>Concordance search (bsbDataApi.ts)\<close>

text \<open>
  A JavaScript number is a double. The model tracks the safe integers, those of
  magnitude at most \<open>2^53 - 1\<close>, which doubles represent exactly: \<open>Safe n\<close>. \<open>NaN\<close> is
  \<^verbatim>\<open>NaN\<close>. \<open>Beyond\<close> stands for any other double (an integer of greater magnitude,
  which \<^verbatim>\<open>parseInt\<close> rounds, past twenty decimal digits in a way left to the
  implementation, or an infinity): its value is not tracked, and neither is a result
  computed from it.
\<close>

datatype number = NaN | Safe int | Beyond

definition MAX_SAFE_INTEGER :: int where
  "MAX_SAFE_INTEGER = 9007199254740991"

definition safe_number :: "int \<Rightarrow> number" where
  "safe_number n = (if - MAX_SAFE_INTEGER \<le> n \<and> n \<le> MAX_SAFE_INTEGER then Safe n else Beyond)"

text \<open>
  \<^verbatim>\<open>parseInt(s)\<close> without a radix: leading white space is skipped, one sign is read,
  the prefix \<^verbatim>\<open>0x\<close> or \<^verbatim>\<open>0X\<close> selects radix 16, the longest run of digits is read, and
  the result is \<^verbatim>\<open>NaN\<close> when that run is empty. A value outside the safe range is
  \<open>Beyond\<close>. \<^verbatim>\<open>parseInt(undefined)\<close> parses the string \<^verbatim>\<open>"undefined"\<close>.
\<close>

definition digit_value :: "nat \<Rightarrow> nat option" where
  "digit_value c =
     (if 48 \<le> c \<and> c \<le> 57 then Some (c - 48)
      else if 97 \<le> c \<and> c \<le> 102 then Some (c - 87)
      else if 65 \<le> c \<and> c \<le> 70 then Some (c - 55)
      else None)"

definition is_digit :: "nat \<Rightarrow> nat \<Rightarrow> bool" where
  "is_digit radix c = (case digit_value c of None \<Rightarrow> False | Some d \<Rightarrow> d < radix)"

definition digits_value :: "nat \<Rightarrow> jsstring \<Rightarrow> nat" where
  "digits_value radix ds =
     foldl (\<lambda>acc c. acc * radix + (case digit_value c of None \<Rightarrow> 0 | Some d \<Rightarrow> d)) 0 ds"

definition parse_digits :: "nat \<Rightarrow> jsstring \<Rightarrow> nat option" where
  "parse_digits radix s =
     (let z = takeWhile (is_digit radix) s
      in if z = [] then None else Some (digits_value radix z))"

definition parse_unsigned :: "jsstring \<Rightarrow> nat option" where
  "parse_unsigned s =
     (if take 2 s = [48, 120] \<or> take 2 s = [48, 88] then parse_digits 16 (drop 2 s)
      else parse_digits 10 s)"

definition signed :: "int \<Rightarrow> nat option \<Rightarrow> number" where
  "signed sign x = (case x of None \<Rightarrow> NaN | Some n \<Rightarrow> safe_number (sign * int n))"

definition parseInt :: "jsstring \<Rightarrow> number" where
  "parseInt s =
     (case dropWhile is_space s of
        [] \<Rightarrow> NaN
      | c # cs \<Rightarrow>
          (if c = 45 then signed (- 1) (parse_unsigned cs)
           else if c = 43 then signed 1 (parse_unsigned cs)
           else signed 1 (parse_unsigned (c # cs))))"

definition parseInt_opt :: "jsstring option \<Rightarrow> number" where
  "parseInt_opt x = (case x of None \<Rightarrow> parseInt (str ''undefined'') | Some s \<Rightarrow> parseInt s)"

text \<open>
  \<^verbatim>\<open>ref.split('.')\<close> always returns at least one part; \<open>element\<close> reads a part that
  may be missing (\<^verbatim>\<open>undefined\<close>), as the destructuring
  \<^verbatim>\<open>const [bookCode, chapter, verse] = ref.split('.')\<close> does.
\<close>

fun split_on :: "nat \<Rightarrow> jsstring \<Rightarrow> jsstring list" where
  "split_on d [] = [[]]"
| "split_on d (c # cs) =
     (if c = d then [] # split_on d cs
      else (case split_on d cs of [] \<Rightarrow> [[c]] | p # ps \<Rightarrow> (c # p) # ps))"

fun element :: "'a list \<Rightarrow> nat \<Rightarrow> 'a option" where
  "element [] i = None"
| "element (x # xs) 0 = Some x"
| "element (x # xs) (Suc i) = element xs i"

text \<open>
  \<^verbatim>\<open>type ConcordanceResult = { id, bookCode, bookNumber, chapter, verse }\<close> in
  bsbDataApi.ts and \<^verbatim>\<open>{ bookCode, bookNumber, chapter, verse, text }\<close> in the older copy:
  the four shared fields are the base record, each copy extends it. The field \<^verbatim>\<open>id\<close>
  is \<open>ref_id\<close> here, \<^verbatim>\<open>text\<close> is \<open>verse_text\<close> and \<^verbatim>\<open>chapter\<close> is \<open>chapter_no\<close>.
\<close>

record ConcordanceResult =
  bookCode :: jsstring
  bookNumber :: jsvalue
  chapter_no :: number
  verse :: number

record ConcordanceResultId = ConcordanceResult +
  ref_id :: jsstring

record ConcordanceResultText = ConcordanceResult +
  verse_text :: jsstring

text \<open>
  The comparator
  \<^verbatim>\<open>(a, b) => a.bookNumber - b.bookNumber || a.chapter - b.chapter || a.verse - b.verse\<close>:
  a difference with a \<^verbatim>\<open>NaN\<close> operand is \<^verbatim>\<open>NaN\<close> (an inherited member as
  \<^verbatim>\<open>bookNumber\<close> converts to \<^verbatim>\<open>NaN\<close>), the difference of two safe integers is exact when
  it is safe, and \<^verbatim>\<open>||\<close> passes over \<open>0\<close> and \<^verbatim>\<open>NaN\<close>.
\<close>

definition to_number :: "jsvalue \<Rightarrow> number" where
  "to_number x = (case x of Num n \<Rightarrow> safe_number (int n) | Obj \<Rightarrow> NaN)"

definition num_sub :: "number \<Rightarrow> number \<Rightarrow> number" where
  "num_sub a b =
     (case a of
        NaN \<Rightarrow> NaN
      | Beyond \<Rightarrow> (case b of NaN \<Rightarrow> NaN | Safe y \<Rightarrow> Beyond | Beyond \<Rightarrow> Beyond)
      | Safe x \<Rightarrow> (case b of NaN \<Rightarrow> NaN | Safe y \<Rightarrow> safe_number (x - y) | Beyond \<Rightarrow> Beyond))"

definition js_or :: "number \<Rightarrow> number \<Rightarrow> number" where
  "js_or a b = (if a = NaN \<or> a = Safe 0 then b else a)"

definition compareResults ::
  "'a ConcordanceResult_scheme \<Rightarrow> 'a ConcordanceResult_scheme \<Rightarrow> number" where
  "compareResults a b =
     js_or (js_or (num_sub (to_number (bookNumber a)) (to_number (bookNumber b)))
                  (num_sub (chapter_no a) (chapter_no b)))
           (num_sub (verse a) (verse b))"

text \<open>
  \<^verbatim>\<open>Array.prototype.sort(comparefn)\<close>. A comparator result of \<^verbatim>\<open>NaN\<close> counts as \<open>0\<close>.
  ECMAScript fixes the result for a consistent comparator: the stable sorted
  permutation, which insertion from the right computes. For an inconsistent comparator
  the order is left to the implementation, and for an untracked comparator result
  (\<open>Beyond\<close>, taken as \<open>0\<close> here) the model does not determine it; the theorems below
  about the order of the result assume references whose book code is no inherited name
  and whose chapter and verse parse as safe integers that are not negative, which makes
  the comparator consistent and tracked.
\<close>

definition sort_compare :: "('a \<Rightarrow> 'a \<Rightarrow> number) \<Rightarrow> 'a \<Rightarrow> 'a \<Rightarrow> int" where
  "sort_compare cmp x y = (case cmp x y of NaN \<Rightarrow> 0 | Safe d \<Rightarrow> d | Beyond \<Rightarrow> 0)"

fun insert_sorted :: "('a \<Rightarrow> 'a \<Rightarrow> number) \<Rightarrow> 'a \<Rightarrow> 'a list \<Rightarrow> 'a list" where
  "insert_sorted cmp x [] = [x]"
| "insert_sorted cmp x (y # ys) =
     (if sort_compare cmp x y \<le> 0 then x # y # ys else y # insert_sorted cmp x ys)"

definition array_sort :: "('a \<Rightarrow> 'a \<Rightarrow> number) \<Rightarrow> 'a list \<Rightarrow> 'a list" where
  "array_sort cmp xs = foldr (insert_sorted cmp) xs []"

text \<open>
  The callback of \<^verbatim>\<open>verseRefs.map\<close>:
  \<^verbatim>\<open>const [bookCode, chapter, verse] = ref.split('.')
  return { id: ref, bookCode, bookNumber: BOOK_NUMBERS[bookCode] || 0,
           chapter: parseInt(chapter), verse: parseInt(verse) }\<close>
\<close>

definition parseRef :: "jsstring \<Rightarrow> ConcordanceResultId" where
  "parseRef ref =
     (let parts = split_on 46 ref; code = or_empty (element parts 0)
      in \<lparr>bookCode = code, bookNumber = or_number (BOOK_NUMBERS code) 0,
          chapter_no = parseInt_opt (element parts 1), verse = parseInt_opt (element parts 2),
          ref_id = ref\<rparr>)"

text \<open>
  \<^verbatim>\<open>searchConcordance\<close> of bsbDataApi.ts. The result of \<^verbatim>\<open>await loadConcordance()\<close> is the
  parameter \<open>concordance\<close>: \<open>None\<close> when the file could not be loaded, else the map from
  Strong's numbers to lists of references.
  \<^verbatim>\<open>if (!concordance) return []
  const normalized = strongsNumber.toUpperCase()
  const verseRefs = concordance.get(normalized)
  if (!verseRefs || verseRefs.length === 0) return []
  const results = verseRefs.map(...)
  return results.sort(...)\<close>
\<close>

definition searchConcordance ::
  "(jsstring \<Rightarrow> jsstring) \<Rightarrow> (jsstring \<rightharpoonup> jsstring list) option \<Rightarrow> jsstring
     \<Rightarrow> ConcordanceResultId list" where
  "searchConcordance toUpperCase concordance strongsNumber =
     (case concordance of
        None \<Rightarrow> []
      | Some m \<Rightarrow>
          (case m (toUpperCase strongsNumber) of
             None \<Rightarrow> []
           | Some verseRefs \<Rightarrow>
               (if length verseRefs = 0 then []
                else array_sort compareResults (map parseRef verseRefs))))"

text \<open>
  The older copy (unnamed/part_001) scans the index. The fields of
  \<^verbatim>\<open>BSBIndexEntry\<close> it reads are \<^verbatim>\<open>b\<close>, \<^verbatim>\<open>c\<close>, \<^verbatim>\<open>v\<close>, \<^verbatim>\<open>t\<close> and \<^verbatim>\<open>s\<close> (prefixed by
  \<open>entry_\<close> here); \<^verbatim>\<open>entry.s?.includes\<close> allows a missing \<^verbatim>\<open>s\<close>. The parameter
  \<open>indexCache\<close> is the list of the cache's entries in insertion order, after
  \<^verbatim>\<open>await loadIndex()\<close>. A comparison of an inherited member with a number is false
  (\<open>num_ge\<close>, \<open>num_le\<close>). The chapter and verse of an entry are integers of the data;
  outside the safe range they are \<open>Beyond\<close>.
  \<^verbatim>\<open>indexCache.forEach(entry => {
    const bookNum = BOOK_NUMBERS[entry.b] || 0
    const isOT = bookNum >= 1 && bookNum <= 39
    if (isHebrew !== isOT) return
    if (entry.s?.includes(normalized)) results.push({ bookCode: entry.b, bookNumber: bookNum,
      chapter: entry.c, verse: entry.v, text: entry.t }) })\<close>
\<close>

record BSBIndexEntry =
  entry_b :: jsstring
  entry_c :: int
  entry_v :: int
  entry_t :: jsstring
  entry_s :: "jsstring list option"

definition startsWith :: "jsstring \<Rightarrow> jsstring \<Rightarrow> bool" where
  "startsWith s p = (take (length p) s = p)"

definition array_includes :: "jsstring list option \<Rightarrow> jsstring \<Rightarrow> bool" where
  "array_includes xs x = (case xs of None \<Rightarrow> False | Some l \<Rightarrow> x \<in> set l)"

definition num_ge :: "jsvalue \<Rightarrow> nat \<Rightarrow> bool" where
  "num_ge x n = (case x of Num m \<Rightarrow> n \<le> m | Obj \<Rightarrow> False)"

definition num_le :: "jsvalue \<Rightarrow> nat \<Rightarrow> bool" where
  "num_le x n = (case x of Num m \<Rightarrow> m \<le> n | Obj \<Rightarrow> False)"

fun scanIndex :: "bool \<Rightarrow> jsstring \<Rightarrow> BSBIndexEntry list \<Rightarrow> ConcordanceResultText list" where
  "scanIndex isHebrew normalized [] = []"
| "scanIndex isHebrew normalized (entry # rest) =
     (let bookNum = or_number (BOOK_NUMBERS (entry_b entry)) 0;
          isOT = (num_ge bookNum 1 \<and> num_le bookNum 39)
      in if isHebrew \<noteq> isOT then scanIndex isHebrew normalized rest
         else if array_includes (entry_s entry) normalized then
           \<lparr>bookCode = entry_b entry, bookNumber = bookNum,
            chapter_no = safe_number (entry_c entry), verse = safe_number (entry_v entry),
            verse_text = entry_t entry\<rparr> # scanIndex isHebrew normalized rest
         else scanIndex isHebrew normalized rest)"

definition searchConcordance_old ::
  "(jsstring \<Rightarrow> jsstring) \<Rightarrow> BSBIndexEntry list \<Rightarrow> jsstring \<Rightarrow> ConcordanceResultText list" where
  "searchConcordance_old toUpperCase indexCache strongsNumber =
     (let normalized = toUpperCase strongsNumber;
          isHebrew = startsWith normalized (str ''H'')
      in array_sort compareResults (scanIndex isHebrew normalized indexCache))"

text \<open>
  An instance of \<open>toUpperCase\<close> for running the functions on ASCII input, where
  \<^verbatim>\<open>toUpperCase\<close> maps \<^verbatim>\<open>a\<close> to \<^verbatim>\<open>z\<close> onto \<^verbatim>\<open>A\<close> to \<^verbatim>\<open>Z\<close> and keeps every other character.
\<close>

definition ascii_upper :: "jsstring \<Rightarrow> jsstring" where
  "ascii_upper s = map (\<lambda>c. if 97 \<le> c \<and> c \<le> 122 then c - 32 else c) s"

section \<open>Notions used to state the properties\<close>

text \<open>
  The set of strings a regular expression matches as a whole, against which
  \<open>regex_test\<close> is proved correct.
\<close>

definition conc :: "jsstring set \<Rightarrow> jsstring set \<Rightarrow> jsstring set" where
  "conc A B = {u @ v | u v. u \<in> A \<and> v \<in> B}"

inductive_set star :: "jsstring set \<Rightarrow> jsstring set" for A :: "jsstring set" where
  star_empty: "[] \<in> star A"
| star_step: "u \<in> A \<Longrightarrow> v \<in> star A \<Longrightarrow> u @ v \<in> star A"

fun lang :: "regex \<Rightarrow> jsstring set" where
  "lang Nothing = {}"
| "lang Empty = {[]}"
| "lang (Cls cs) = {[c] | c. c \<in> set cs}"
| "lang (Seq r s) = conc (lang r) (lang s)"
| "lang (Alt r s) = lang r \<union> lang s"
| "lang (Plus r) = conc (lang r) (star (lang r))"
| "lang (Star r) = star (lang r)"

text \<open>
  The three shapes of a skip marker in the words of the specification: a run of dash
  characters only (hyphen, en dash, em dash); three groups of dots with any white space,
  or none, between the groups; the token \<^verbatim>\<open>vvv\<close>.
\<close>

definition dash_run :: "jsstring \<Rightarrow> bool" where
  "dash_run t = (t \<noteq> [] \<and> list_all (\<lambda>c. c = 45 \<or> c = 8211 \<or> c = 8212) t)"

definition dots :: "jsstring \<Rightarrow> bool" where
  "dots t = (t \<noteq> [] \<and> list_all (\<lambda>c. c = 46) t)"

definition spacing :: "jsstring \<Rightarrow> bool" where
  "spacing t = list_all is_space t"

definition ellipsis3 :: "jsstring \<Rightarrow> bool" where
  "ellipsis3 t = (\<exists>d1 s1 d2 s2 d3. t = d1 @ s1 @ d2 @ s2 @ d3
      \<and> dots d1 \<and> spacing s1 \<and> dots d2 \<and> spacing s2 \<and> dots d3)"

text \<open>
  The data model gives a word a Strong's number that is either absent or a letter
  followed by digits; \<open>strongs_nonempty\<close> is the part of it the alignment depends on:
  no word of the array carries the empty string as its number.
\<close>

definition strongs_nonempty :: "BSBWord list \<Rightarrow> bool" where
  "strongs_nonempty ws = list_all (\<lambda>(txt, s). s \<noteq> Some []) ws"

text \<open>
  The text of the first entry of the original array that carries the number \<open>s\<close>, the
  empty string when there is none.
\<close>

definition first_original_text :: "BSBWord list \<Rightarrow> jsstring option \<Rightarrow> jsstring" where
  "first_original_text ows s =
     (case find (\<lambda>(txt, s'). s' = s) ows of None \<Rightarrow> [] | Some (txt, s') \<Rightarrow> txt)"

text \<open>
  Original order in the words of the specification. \<open>first_unconsumed ws s used\<close> is the
  index of the first English entry, from the left, whose number is \<open>s\<close> and whose index
  is not in \<open>used\<close>. \<open>consumed ws os k\<close> is the set of English indices that the triples
  of the first \<open>k\<close> surviving original entries \<open>os\<close> have consumed.
\<close>

definition first_unconsumed :: "BSBWord list \<Rightarrow> jsstring option \<Rightarrow> nat set \<Rightarrow> nat option" where
  "first_unconsumed ws s used = find (\<lambda>i. snd (ws ! i) = s \<and> i \<notin> used) [0..<length ws]"

fun consumed :: "BSBWord list \<Rightarrow> BSBWord list \<Rightarrow> nat \<Rightarrow> nat set" where
  "consumed ws os 0 = {}"
| "consumed ws os (Suc k) =
     (case first_unconsumed ws (snd (os ! k)) (consumed ws os k) of
        None \<Rightarrow> consumed ws os k
      | Some i \<Rightarrow> insert i (consumed ws os k))"

definition english_of :: "BSBWord list \<Rightarrow> nat option \<Rightarrow> jsstring" where
  "english_of ws x = (case x of None \<Rightarrow> [] | Some i \<Rightarrow> cleanText (fst (ws ! i)))"

text \<open>
  The same binding in closed form: \<open>occurrences ws s\<close> lists the English indices that
  carry \<open>s\<close>, from the left; \<open>rank os k\<close> counts the surviving original entries before
  the \<open>k\<close>-th that carry the same number as the \<open>k\<close>-th.
\<close>

definition occurrences :: "BSBWord list \<Rightarrow> jsstring option \<Rightarrow> nat list" where
  "occurrences ws s = filter (\<lambda>i. snd (ws ! i) = s) [0..<length ws]"

definition rank :: "BSBWord list \<Rightarrow> nat \<Rightarrow> nat" where
  "rank os k = length (filter (\<lambda>e. snd e = snd (os ! k)) (take k os))"

text \<open>
  Order of concordance results: \<open>key_le a b\<close> holds when both results have a number as
  \<open>bookNumber\<close> and tracked integers as chapter and verse, and the tuple (bookNumber,
  chapter, verse) of \<open>a\<close> is at most that of \<open>b\<close> in lexicographic order.
  \<open>well_formed_ref\<close> says that a reference has a first part that is no inherited
  property name, and a second and a third part that \<^verbatim>\<open>parseInt\<close> reads as safe integers
  that are not negative.
\<close>

definition key_le :: "'a ConcordanceResult_scheme \<Rightarrow> 'a ConcordanceResult_scheme \<Rightarrow> bool" where
  "key_le a b =
     (case bookNumber a of Obj \<Rightarrow> False | Num b1 \<Rightarrow>
      case chapter_no a of NaN \<Rightarrow> False | Beyond \<Rightarrow> False | Safe c1 \<Rightarrow>
      case verse a of NaN \<Rightarrow> False | Beyond \<Rightarrow> False | Safe v1 \<Rightarrow>
      case bookNumber b of Obj \<Rightarrow> False | Num b2 \<Rightarrow>
      case chapter_no b of NaN \<Rightarrow> False | Beyond \<Rightarrow> False | Safe c2 \<Rightarrow>
      case verse b of NaN \<Rightarrow> False | Beyond \<Rightarrow> False | Safe v2 \<Rightarrow>
        b1 < b2 \<or> (b1 = b2 \<and> (c1 < c2 \<or> (c1 = c2 \<and> v1 \<le> v2))))"

definition natural_number :: "number \<Rightarrow> bool" where
  "natural_number x = (case x of NaN \<Rightarrow> False | Beyond \<Rightarrow> False | Safe n \<Rightarrow> 0 \<le> n)"

definition well_formed_ref :: "jsstring \<Rightarrow> bool" where
  "well_formed_ref ref =
     (or_empty (element (split_on 46 ref) 0) \<notin> set object_prototype_names
      \<and> natural_number (parseInt_opt (element (split_on 46 ref) 1))
      \<and> natural_number (parseInt_opt (element (split_on 46 ref) 2)))"

text \<open>
  \<open>cnt os s k\<close> counts the entries among the first \<open>k\<close> of \<open>os\<close> that carry the number
  \<open>s\<close>. \<open>numeric r\<close> says that a result has a safe integer as \<open>bookNumber\<close> and safe
  integers that are not negative as chapter and verse.
\<close>

definition cnt :: "BSBWord list \<Rightarrow> jsstring option \<Rightarrow> nat \<Rightarrow> nat" where
  "cnt os s k = length (filter (\<lambda>e. snd e = s) (take k os))"

definition numeric :: "'a ConcordanceResult_scheme \<Rightarrow> bool" where
  "numeric r =
     ((\<exists>n. bookNumber r = Num n \<and> int n \<le> MAX_SAFE_INTEGER)
      \<and> (\<exists>c. chapter_no r = Safe c \<and> 0 \<le> c \<and> c \<le> MAX_SAFE_INTEGER)
      \<and> (\<exists>v. verse r = Safe v \<and> 0 \<le> v \<and> v \<le> MAX_SAFE_INTEGER))"

text \<open>
  Three verses for running the alignment. \<open>gen_1_1\<close> follows Genesis 1:1: the number
  H0853 occurs twice in both arrays, the English array has an untagged bracketed word, a
  dash placeholder and a full stop, the Hebrew array ends with a sof pasuq.
  \<open>placeholder_verse\<close> has one English entry, the filler token with a number, and its
  Hebrew counterpart. \<open>untagged_original_verse\<close> has tagged English words and neither a
  Hebrew nor a Greek array.
\<close>

definition gen_1_1 :: BSBVerse where
  "gen_1_1 = \<lparr>verse_v = 1,
     verse_w = [(str ''In the beginning'', Some (str ''H7225'')), (str ''God'', Some (str ''H0430'')),
                (str ''created'', Some (str ''H1254'')), (str ''-'', Some (str ''H0853'')),
                (str ''the heavens'', Some (str ''H8064'')), (str ''and'', Some (str ''H0853'')),
                (str ''[the]'', None), (str ''{the} earth'', Some (str ''H0776'')),
                (str ''.'', None)],
     heb = Some [([1489, 1512], Some (str ''H7225'')), ([1489, 1488], Some (str ''H1254'')),
                 ([1488, 1500], Some (str ''H0430'')), ([1488, 1514], Some (str ''H0853'')),
                 ([1513, 1502], Some (str ''H8064'')), ([1493, 1488, 1514], Some (str ''H0853'')),
                 ([1488, 1512, 1509], Some (str ''H0776'')), ([1475], None)],
     grk = None\<rparr>"

definition placeholder_verse :: BSBVerse where
  "placeholder_verse = \<lparr>verse_v = 1,
     verse_w = [(str ''vvv'', Some (str ''H0853''))],
     heb = Some [([1488, 1514], Some (str ''H0853''))],
     grk = None\<rparr>"

definition untagged_original_verse :: BSBVerse where
  "untagged_original_verse = \<lparr>verse_v = 1,
     verse_w = [(str ''Now'', None), (str ''the earth'', Some (str ''H0776'')),
                (str ''. . .'', Some (str ''H1961'')), (str ''was'', Some (str ''H1961''))],
     heb = None, grk = None\<rparr>"

text \<open>
  Concordance data for running the search: a map with one key, whose list is out of
  order and holds a reference with an unknown book code and a New Testament reference
  under a Hebrew number; and an index for the older copy with the same number tagged on an
  Old and a New Testament verse.
\<close>

definition example_refs :: "jsstring list" where
  "example_refs = [str ''MAT.1.1'', str ''GEN.2.3'', str ''XXX.9.9'', str ''GEN.1.5'']"

definition example_concordance :: "jsstring \<rightharpoonup> jsstring list" where
  "example_concordance = [str ''H0001'' \<mapsto> example_refs]"

definition example_index :: "BSBIndexEntry list" where
  "example_index =
     [\<lparr>entry_b = str ''MAT'', entry_c = 1, entry_v = 1, entry_t = str ''The record'',
       entry_s = Some [str ''G0976'', str ''H0001'']\<rparr>,
      \<lparr>entry_b = str ''GEN'', entry_c = 2, entry_v = 3, entry_t = str ''Then God blessed'',
       entry_s = Some [str ''H0001'', str ''G0976'']\<rparr>,
      \<lparr>entry_b = str ''GEN'', entry_c = 1, entry_v = 5, entry_t = str ''God called'',
       entry_s = None\<rparr>]"

section \<open>Properties of the text classifier\<close>

lemma replace_class_empty: "replace_class cls [] s = filter (\<lambda>c. c \<notin> set cls) s"
  by (induction s) auto

lemma cleanText_filter: "cleanText s = filter (\<lambda>c. c \<notin> set bracket_class) s"
  by (simp add: cleanText_def replace_class_empty)

text \<open>
  C9. \<open>cleanText\<close> removes exactly the code units of \<^verbatim>\<open>[\<close>, \<^verbatim>\<open>]\<close>, \<^verbatim>\<open>{\<close> and \<^verbatim>\<open>}\<close>
  (91, 93, 123, 125): the result is the input with those code units deleted and every
  other code unit kept, in order; and cleaning a cleaned string changes nothing.
\<close>

theorem cleanText_removes_brackets_idempotent:
  "cleanText s = filter (\<lambda>c. c \<noteq> 91 \<and> c \<noteq> 93 \<and> c \<noteq> 123 \<and> c \<noteq> 125) s
   \<and> cleanText (cleanText s) = cleanText s"
  by (simp add: cleanText_filter bracket_class_def)

subsection \<open>The matcher decides the language of the pattern\<close>

lemma conc_Nil: "([] \<in> conc A B) = ([] \<in> A \<and> [] \<in> B)"
  by (auto simp: conc_def)

lemma conc_iff: "(t \<in> conc A B) = (\<exists>u v. t = u @ v \<and> u \<in> A \<and> v \<in> B)"
  by (auto simp: conc_def)

lemma nullable_lang: "nullable r = ([] \<in> lang r)"
  by (induction r) (auto simp: conc_Nil intro: star.intros)

lemma conc_Cons:
  "(c # w \<in> conc A B) =
     (([] \<in> A \<and> c # w \<in> B) \<or> (\<exists>u v. w = u @ v \<and> c # u \<in> A \<and> v \<in> B))"
  by (auto simp: conc_def Cons_eq_append_conv)

lemma star_Cons_dest:
  "x \<in> star A \<Longrightarrow> x = c # w \<Longrightarrow> \<exists>u v. w = u @ v \<and> c # u \<in> A \<and> v \<in> star A"
proof (induction rule: star.induct)
  case star_empty
  then show ?case by simp
next
  case (star_step u v)
  then show ?case by (cases u) auto
qed

lemma star_Cons:
  "(c # w \<in> star A) = (\<exists>u v. w = u @ v \<and> c # u \<in> A \<and> v \<in> star A)"
proof
  assume "c # w \<in> star A"
  then show "\<exists>u v. w = u @ v \<and> c # u \<in> A \<and> v \<in> star A"
    using star_Cons_dest by blast
next
  assume "\<exists>u v. w = u @ v \<and> c # u \<in> A \<and> v \<in> star A"
  then obtain u v where "w = u @ v" "c # u \<in> A" "v \<in> star A" by blast
  then show "c # w \<in> star A"
    using star.star_step [of "c # u" A v] by simp
qed

lemma lang_deriv: "(w \<in> lang (deriv c r)) = (c # w \<in> lang r)"
proof (induction r arbitrary: w)
  case (Seq r1 r2)
  then show ?case by (auto simp: conc_Cons nullable_lang) (auto simp: conc_def)
next
  case (Plus r)
  then show ?case by (auto simp: conc_Cons star_Cons) (auto simp: conc_def)
next
  case (Star r)
  then show ?case by (auto simp: star_Cons) (auto simp: conc_def)
qed auto

lemma regex_test_lang: "regex_test r s = (s \<in> lang r)"
  by (induction s arbitrary: r) (auto simp: nullable_lang lang_deriv)

lemma star_class: "(u \<in> star {[c] | c. c \<in> set cs}) = list_all (\<lambda>c. c \<in> set cs) u"
  by (induction u) (auto simp: star_Cons intro: star.intros)

lemma plus_class:
  "(u \<in> lang (Plus (Cls cs))) = (u \<noteq> [] \<and> list_all (\<lambda>c. c \<in> set cs) u)"
  by (cases u) (auto simp: conc_Cons star_class conc_Nil)

lemma star_class_lang: "(u \<in> lang (Star (Cls cs))) = list_all (\<lambda>c. c \<in> set cs) u"
  by (simp add: star_class)

lemma lang_dash: "(t \<in> lang (Plus (Cls dash_class))) = dash_run t"
  by (simp only: plus_class) (simp add: dash_class_def dash_run_def)

lemma lang_dots: "(t \<in> lang (Plus (Cls [46]))) = dots t"
  by (simp only: plus_class) (simp add: dots_def)

lemma lang_spacing: "(t \<in> lang (Star (Cls white_space))) = spacing t"
  by (simp only: star_class_lang) (simp add: spacing_def list_all_iff is_space_def)

lemma lang_ellipsis:
  "(t \<in> lang (Seq (Plus (Cls [46])) (Seq (Star (Cls white_space))
           (Seq (Plus (Cls [46])) (Seq (Star (Cls white_space)) (Plus (Cls [46])))))))
   = ellipsis3 t"
proof -
  have "(t \<in> lang (Seq (Plus (Cls [46])) (Seq (Star (Cls white_space))
           (Seq (Plus (Cls [46])) (Seq (Star (Cls white_space)) (Plus (Cls [46])))))))
      = (\<exists>d1 r1. t = d1 @ r1 \<and> dots d1 \<and> (\<exists>s1 r2. r1 = s1 @ r2 \<and> spacing s1 \<and>
          (\<exists>d2 r3. r2 = d2 @ r3 \<and> dots d2 \<and>
            (\<exists>s2 d3. r3 = s2 @ d3 \<and> spacing s2 \<and> dots d3))))"
    unfolding lang.simps(4) conc_iff lang_dots lang_spacing by (rule refl)
  also have "\<dots> = ellipsis3 t"
    unfolding ellipsis3_def by blast
  finally show ?thesis .
qed

lemma lang_vvv:
  "(t \<in> lang (Seq (Cls [118]) (Seq (Cls [118]) (Cls [118])))) = (t = str ''vvv'')"
  by (auto simp: conc_def str_def)

lemma skip_markers_lang:
  "regex_test SKIP_MARKERS_REGEX t = (dash_run t \<or> ellipsis3 t \<or> t = str ''vvv'')"
  unfolding regex_test_lang SKIP_MARKERS_REGEX_def lang.simps(5) Un_iff
    lang_dash lang_ellipsis lang_vvv
  by (rule refl)

lemma punctuation_lang:
  "isPunctuation t = (t \<noteq> [] \<and> list_all (\<lambda>c. c \<in> set punctuation_class) t)"
  unfolding isPunctuation_def PUNCTUATION_REGEX_def regex_test_lang by (rule plus_class)

subsection \<open>Running the classifier\<close>

lemmas classifier_eval =
  shouldSkipWord_def isPunctuation_def str_def trim_def is_space_def white_space_def
  SKIP_MARKERS_REGEX_def PUNCTUATION_REGEX_def punctuation_class_def dash_class_def
  present_def cleanText_def bracket_class_def

lemma skip_spaced_dashes: "\<not> shouldSkipWord (str ''- - -'') (Some (str ''H1234''))"
  by (simp add: classifier_eval)

lemma skip_dash_run: "shouldSkipWord (str ''---'') (Some (str ''H1234''))"
  by (simp add: classifier_eval)

lemma skip_spaced_ellipsis: "shouldSkipWord (str '' . . . '') (Some (str ''H1234''))"
  by (simp add: classifier_eval)

lemma skip_null_strongs: "\<not> shouldSkipWord t None"
  by (simp add: shouldSkipWord_def present_def)

lemma punctuation_examples:
  "isPunctuation [8212] \<and> isPunctuation (str '' . '') \<and> \<not> isPunctuation (str ''word'')"
  by (simp add: classifier_eval)

text \<open>
  C4, as stated, at its own example: three dashes separated by spaces, with a Strong's
  number, are not a skip marker for the code. The dash alternative of the pattern admits
  dash characters only, and no other alternative admits a dash.
\<close>

theorem shouldSkipWord_spaced_dashes_counterexample:
  "\<not> shouldSkipWord (str ''- - -'') (Some (str ''H1234''))"
  by (rule skip_spaced_dashes)

text \<open>
  C4, amended. \<open>shouldSkipWord text strongs\<close> holds exactly when the Strong's number is
  present (neither \<^verbatim>\<open>null\<close> nor empty) and the trimmed text is a run of dash characters
  only, or three groups of dots with any white space or none between the groups, or the
  token \<^verbatim>\<open>vvv\<close>. In particular it holds for \<^verbatim>\<open>---\<close> with \<^verbatim>\<open>H1234\<close>, it fails for
  \<^verbatim>\<open>- - -\<close> with \<^verbatim>\<open>H1234\<close>, and it fails for \<^verbatim>\<open>- - -\<close> without a number.
\<close>

theorem shouldSkipWord_iff:
  "(shouldSkipWord t s =
      (present s \<and> (dash_run (trim t) \<or> ellipsis3 (trim t) \<or> trim t = str ''vvv'')))
   \<and> shouldSkipWord (str ''---'') (Some (str ''H1234''))
   \<and> \<not> shouldSkipWord (str ''- - -'') (Some (str ''H1234''))
   \<and> \<not> shouldSkipWord (str ''- - -'') None"
  using skip_dash_run skip_spaced_dashes skip_null_strongs
  by (simp add: shouldSkipWord_def skip_markers_lang)

theorem shouldSkipWord_iff_witness:
  "present (Some (str ''H1234''))
   \<and> (dash_run (trim (str '' . . . '')) \<or> ellipsis3 (trim (str '' . . . ''))
        \<or> trim (str '' . . . '') = str ''vvv'')"
  using shouldSkipWord_iff [of "str '' . . . ''" "Some (str ''H1234'')"] skip_spaced_ellipsis
  by simp

section \<open>Properties of the alignment engine\<close>

subsection \<open>English order\<close>

lemma present_nonempty: "s \<noteq> Some [] \<Longrightarrow> present s = (s \<noteq> None)"
  by (cases s) (auto simp: present_def)

lemma filter_present:
  "strongs_nonempty ws \<Longrightarrow>
     filter (\<lambda>(txt, s). present s \<and> P txt s) ws = filter (\<lambda>(txt, s). s \<noteq> None \<and> P txt s) ws"
  unfolding strongs_nonempty_def
  by (rule filter_cong) (auto simp: list_all_iff present_def split: option.splits)

lemma buildOriginalWordMap_lookup:
  "k \<noteq> [] \<Longrightarrow> buildOriginalWordMap ows m k =
     (case m k of Some t \<Rightarrow> Some t
      | None \<Rightarrow> map_option fst (find (\<lambda>(txt, s'). s' = Some k) ows))"
proof (induction ows arbitrary: m)
  case Nil
  then show ?case by (simp split: option.splits)
next
  case (Cons e ows)
  obtain t s where e: "e = (t, s)" by (cases e)
  show ?case
    using Cons.prems by (auto simp: e Cons.IH split: option.splits)
qed

lemma original_lookup:
  "present s \<Longrightarrow>
     or_empty (map_get (buildOriginalWordMap ows Map.empty) s) = first_original_text ows s"
  by (cases s)
     (auto simp: present_def map_get_def or_empty_def first_original_text_def
        buildOriginalWordMap_lookup split: option.splits)

lemma wordPairs_english_order:
  "wordPairs False vs =
     map (\<lambda>(txt, s). \<lparr>original = first_original_text (originalWords vs) s,
                      english = cleanText txt, strongs = s\<rparr>)
       (filter (\<lambda>(txt, s). present s \<and> \<not> isPunctuation txt \<and> \<not> shouldSkipWord txt s)
          (verse_w vs))"
  by (auto simp: wordPairs_def original_lookup)

lemma wordPairs_no_original:
  "originalWords vs = [] \<Longrightarrow> wordPairs flag vs = wordPairs False vs"
  by (simp add: wordPairs_def)

lemmas alignment_eval =
  wordPairs_def originalWords_def gen_1_1_def placeholder_verse_def untagged_original_verse_def
  strongs_nonempty_def Let_def map_get_def or_empty_def classifier_eval

lemma gen_1_1_english_order:
  "wordPairs False gen_1_1 =
    [\<lparr>original = [1489, 1512], english = str ''In the beginning'', strongs = Some (str ''H7225'')\<rparr>,
     \<lparr>original = [1488, 1500], english = str ''God'', strongs = Some (str ''H0430'')\<rparr>,
     \<lparr>original = [1489, 1488], english = str ''created'', strongs = Some (str ''H1254'')\<rparr>,
     \<lparr>original = [1513, 1502], english = str ''the heavens'', strongs = Some (str ''H8064'')\<rparr>,
     \<lparr>original = [1488, 1514], english = str ''and'', strongs = Some (str ''H0853'')\<rparr>,
     \<lparr>original = [1488, 1512, 1509], english = str ''the earth'', strongs = Some (str ''H0776'')\<rparr>]"
  by (simp add: alignment_eval)

lemma gen_1_1_original_order:
  "wordPairs True gen_1_1 =
    [\<lparr>original = [1489, 1512], english = str ''In the beginning'', strongs = Some (str ''H7225'')\<rparr>,
     \<lparr>original = [1489, 1488], english = str ''created'', strongs = Some (str ''H1254'')\<rparr>,
     \<lparr>original = [1488, 1500], english = str ''God'', strongs = Some (str ''H0430'')\<rparr>,
     \<lparr>original = [1488, 1514], english = str ''-'', strongs = Some (str ''H0853'')\<rparr>,
     \<lparr>original = [1513, 1502], english = str ''the heavens'', strongs = Some (str ''H8064'')\<rparr>,
     \<lparr>original = [1493, 1488, 1514], english = str ''and'', strongs = Some (str ''H0853'')\<rparr>,
     \<lparr>original = [1488, 1512, 1509], english = str ''the earth'', strongs = Some (str ''H0776'')\<rparr>]"
  by (simp add: alignment_eval)

text \<open>
  C2. English order (the flag \<^verbatim>\<open>useHebrewWordOrder\<close> is off), for a verse whose English
  words carry no empty Strong's number: the output has one triple for each English entry
  whose number is non-null, whose text is not punctuation and which is not a skip marker,
  in the order of the English array; the triple's \<open>original\<close> is the text of the first
  original entry with that number, or the empty string when there is none; its
  \<open>english\<close> is the cleaned text. Nothing is consumed: two triples with the same number
  have the same \<open>original\<close>.
\<close>

theorem english_order_alignment:
  assumes "strongs_nonempty (verse_w vs)"
  shows "wordPairs False vs =
     map (\<lambda>(txt, s). \<lparr>original = first_original_text (originalWords vs) s,
                      english = cleanText txt, strongs = s\<rparr>)
       (filter (\<lambda>(txt, s). s \<noteq> None \<and> \<not> isPunctuation txt \<and> \<not> shouldSkipWord txt s)
          (verse_w vs))
   \<and> (\<forall>p \<in> set (wordPairs False vs). \<forall>q \<in> set (wordPairs False vs).
         strongs p = strongs q \<longrightarrow> original p = original q)"
proof
  show "wordPairs False vs =
     map (\<lambda>(txt, s). \<lparr>original = first_original_text (originalWords vs) s,
                      english = cleanText txt, strongs = s\<rparr>)
       (filter (\<lambda>(txt, s). s \<noteq> None \<and> \<not> isPunctuation txt \<and> \<not> shouldSkipWord txt s)
          (verse_w vs))"
    using filter_present [OF assms, of "\<lambda>txt s. \<not> isPunctuation txt \<and> \<not> shouldSkipWord txt s"]
    by (simp add: wordPairs_english_order)
  have "\<forall>p \<in> set (wordPairs False vs).
          original p = first_original_text (originalWords vs) (strongs p)"
    by (auto simp: wordPairs_english_order)
  then show "\<forall>p \<in> set (wordPairs False vs). \<forall>q \<in> set (wordPairs False vs).
         strongs p = strongs q \<longrightarrow> original p = original q"
    by simp
qed

theorem english_order_alignment_witness:
  "strongs_nonempty (verse_w gen_1_1)
   \<and> map (\<lambda>(txt, s). \<lparr>original = first_original_text (originalWords gen_1_1) s,
                      english = cleanText txt, strongs = s\<rparr>)
       (filter (\<lambda>(txt, s). s \<noteq> None \<and> \<not> isPunctuation txt \<and> \<not> shouldSkipWord txt s)
          (verse_w gen_1_1))
     = [\<lparr>original = [1489, 1512], english = str ''In the beginning'', strongs = Some (str ''H7225'')\<rparr>,
        \<lparr>original = [1488, 1500], english = str ''God'', strongs = Some (str ''H0430'')\<rparr>,
        \<lparr>original = [1489, 1488], english = str ''created'', strongs = Some (str ''H1254'')\<rparr>,
        \<lparr>original = [1513, 1502], english = str ''the heavens'', strongs = Some (str ''H8064'')\<rparr>,
        \<lparr>original = [1488, 1514], english = str ''and'', strongs = Some (str ''H0853'')\<rparr>,
        \<lparr>original = [1488, 1512, 1509], english = str ''the earth'', strongs = Some (str ''H0776'')\<rparr>]"
proof -
  have h: "strongs_nonempty (verse_w gen_1_1)"
    by (simp add: alignment_eval)
  show ?thesis
    using h english_order_alignment [OF h] gen_1_1_english_order by simp
qed

text \<open>
  C5. When the verse has no original words (\<^verbatim>\<open>heb\<close> is absent and \<^verbatim>\<open>grk\<close> is absent or
  empty, or \<^verbatim>\<open>heb\<close> is empty), the output is the same under either value of the flag:
  the English-order output, one triple for each eligible English entry in the order of
  the English array, and every triple has the empty string as \<open>original\<close>.
\<close>

theorem missing_original_fallback:
  assumes "originalWords vs = []"
  shows "wordPairs flag vs = wordPairs False vs
   \<and> wordPairs flag vs =
       map (\<lambda>(txt, s). \<lparr>original = [], english = cleanText txt, strongs = s\<rparr>)
         (filter (\<lambda>(txt, s). present s \<and> \<not> isPunctuation txt \<and> \<not> shouldSkipWord txt s)
            (verse_w vs))
   \<and> list_all (\<lambda>p. original p = []) (wordPairs flag vs)"
proof -
  have a: "wordPairs flag vs = wordPairs False vs"
    using assms by (rule wordPairs_no_original)
  have b: "wordPairs False vs =
       map (\<lambda>(txt, s). \<lparr>original = [], english = cleanText txt, strongs = s\<rparr>)
         (filter (\<lambda>(txt, s). present s \<and> \<not> isPunctuation txt \<and> \<not> shouldSkipWord txt s)
            (verse_w vs))"
    using assms by (simp add: wordPairs_english_order first_original_text_def)
  have c: "list_all (\<lambda>p. original p = []) (wordPairs False vs)"
    unfolding b by (auto simp: list_all_iff)
  show ?thesis using a b c by simp
qed

theorem missing_original_fallback_witness:
  "originalWords untagged_original_verse = []
   \<and> wordPairs True untagged_original_verse = wordPairs False untagged_original_verse
   \<and> wordPairs True untagged_original_verse =
       [\<lparr>original = [], english = str ''the earth'', strongs = Some (str ''H0776'')\<rparr>,
        \<lparr>original = [], english = str ''was'', strongs = Some (str ''H1961'')\<rparr>]"
proof -
  have h: "originalWords untagged_original_verse = []"
    by (simp add: alignment_eval)
  have e: "map (\<lambda>(txt, s). \<lparr>original = [], english = cleanText txt, strongs = s\<rparr>)
         (filter (\<lambda>(txt, s). present s \<and> \<not> isPunctuation txt \<and> \<not> shouldSkipWord txt s)
            (verse_w untagged_original_verse)) =
       [\<lparr>original = [], english = str ''the earth'', strongs = Some (str ''H0776'')\<rparr>,
        \<lparr>original = [], english = str ''was'', strongs = Some (str ''H1961'')\<rparr>]"
    by (simp add: alignment_eval)
  have a: "wordPairs True untagged_original_verse = wordPairs False untagged_original_verse"
    using missing_original_fallback [OF h, of True] by blast
  have "wordPairs True untagged_original_verse =
       map (\<lambda>(txt, s). \<lparr>original = [], english = cleanText txt, strongs = s\<rparr>)
         (filter (\<lambda>(txt, s). present s \<and> \<not> isPunctuation txt \<and> \<not> shouldSkipWord txt s)
            (verse_w untagged_original_verse))"
    using missing_original_fallback [OF h, of True] by blast
  then have b: "wordPairs True untagged_original_verse =
       [\<lparr>original = [], english = str ''the earth'', strongs = Some (str ''H0776'')\<rparr>,
        \<lparr>original = [], english = str ''was'', strongs = Some (str ''H1961'')\<rparr>]"
    using e by (rule trans)
  show ?thesis
    using h a b by blast
qed

subsection \<open>Skip markers\<close>

lemma english_order_no_skip_marker:
  "p \<in> set (wordPairs False vs) \<Longrightarrow>
     \<exists>t s. (t, s) \<in> set (verse_w vs) \<and> \<not> shouldSkipWord t s
        \<and> english p = cleanText t \<and> strongs p = s"
  by (auto simp: wordPairs_english_order)

lemma english_branch:
  assumes "\<not> (flag \<and> originalWords vs \<noteq> [])"
  shows "wordPairs flag vs = wordPairs False vs"
proof (cases flag)
  case True
  then have "originalWords vs = []" using assms by simp
  then show ?thesis by (rule wordPairs_no_original)
next
  case False
  then show ?thesis by simp
qed

lemma placeholder_original_order:
  "shouldSkipWord (str ''vvv'') (Some (str ''H0853''))
   \<and> wordPairs False placeholder_verse = []
   \<and> wordPairs True placeholder_verse =
       [\<lparr>original = [1488, 1514], english = str ''vvv'', strongs = Some (str ''H0853'')\<rparr>]"
  by (simp add: alignment_eval)

lemma untagged_original_order:
  "wordPairs True untagged_original_verse =
       [\<lparr>original = [], english = str ''the earth'', strongs = Some (str ''H0776'')\<rparr>,
        \<lparr>original = [], english = str ''was'', strongs = Some (str ''H1961'')\<rparr>]"
  by (simp add: alignment_eval)

text \<open>
  C3, as stated, at a verse whose only English entry is the filler token with a number: the
  entry is a skip marker, English order leaves it out, and original order binds it to
  the Hebrew word and emits its text as the triple's \<open>english\<close>. The scan of the English
  array in the original-order branch compares Strong's numbers and consumed indices
  only, as the binding of C1 requires.
\<close>

theorem original_order_skip_marker_counterexample:
  "shouldSkipWord (str ''vvv'') (Some (str ''H0853''))
   \<and> wordPairs True placeholder_verse =
       [\<lparr>original = [1488, 1514], english = str ''vvv'', strongs = Some (str ''H0853'')\<rparr>]"
  using placeholder_original_order by blast

text \<open>
  C3, amended. Under English order (the flag is off, or the verse has no original words)
  the English entries for which \<open>shouldSkipWord\<close> holds are excluded: the output is the
  image, in order, of the English entries that carry a number, are not punctuation and
  are not skip markers, so the \<open>english\<close> of every triple is the cleaned text of an
  English entry that is not a skip marker.
\<close>

theorem english_order_excludes_skip_markers:
  assumes "\<not> (flag \<and> originalWords vs \<noteq> [])"
  shows "wordPairs flag vs =
       map (\<lambda>(txt, s). \<lparr>original = first_original_text (originalWords vs) s,
                        english = cleanText txt, strongs = s\<rparr>)
         (filter (\<lambda>(txt, s). present s \<and> \<not> isPunctuation txt \<and> \<not> shouldSkipWord txt s)
            (verse_w vs))
   \<and> (\<forall>p \<in> set (wordPairs flag vs).
         \<exists>t s. (t, s) \<in> set (verse_w vs) \<and> \<not> shouldSkipWord t s
            \<and> english p = cleanText t \<and> strongs p = s)"
proof -
  have e: "wordPairs flag vs = wordPairs False vs"
    using assms by (rule english_branch)
  have m: "wordPairs False vs =
       map (\<lambda>(txt, s). \<lparr>original = first_original_text (originalWords vs) s,
                        english = cleanText txt, strongs = s\<rparr>)
         (filter (\<lambda>(txt, s). present s \<and> \<not> isPunctuation txt \<and> \<not> shouldSkipWord txt s)
            (verse_w vs))"
    by (rule wordPairs_english_order)
  have n: "\<forall>p \<in> set (wordPairs False vs).
         \<exists>t s. (t, s) \<in> set (verse_w vs) \<and> \<not> shouldSkipWord t s
            \<and> english p = cleanText t \<and> strongs p = s"
    by (rule ballI) (rule english_order_no_skip_marker)
  show ?thesis
    unfolding e by (rule conjI) (rule m, rule n)
qed

theorem english_order_excludes_skip_markers_witness:
  "originalWords untagged_original_verse = []
   \<and> (str ''. . .'', Some (str ''H1961'')) \<in> set (verse_w untagged_original_verse)
   \<and> shouldSkipWord (str ''. . .'') (Some (str ''H1961''))
   \<and> wordPairs True untagged_original_verse =
       [\<lparr>original = [], english = str ''the earth'', strongs = Some (str ''H0776'')\<rparr>,
        \<lparr>original = [], english = str ''was'', strongs = Some (str ''H1961'')\<rparr>]
   \<and> (str ''-'', Some (str ''H0853'')) \<in> set (verse_w gen_1_1)
   \<and> shouldSkipWord (str ''-'') (Some (str ''H0853''))
   \<and> map english (wordPairs False gen_1_1) =
        [str ''In the beginning'', str ''God'', str ''created'', str ''the heavens'', str ''and'',
         str ''the earth'']"
proof -
  have h0: "originalWords untagged_original_verse = []"
    by (simp add: alignment_eval)
  then have h: "\<not> (True \<and> originalWords untagged_original_verse \<noteq> [])"
    by simp
  have "wordPairs True untagged_original_verse =
       map (\<lambda>(txt, s). \<lparr>original = first_original_text (originalWords untagged_original_verse) s,
                        english = cleanText txt, strongs = s\<rparr>)
         (filter (\<lambda>(txt, s). present s \<and> \<not> isPunctuation txt \<and> \<not> shouldSkipWord txt s)
            (verse_w untagged_original_verse))"
    using english_order_excludes_skip_markers [OF h] by (rule conjunct1)
  also have "\<dots> =
       [\<lparr>original = [], english = str ''the earth'', strongs = Some (str ''H0776'')\<rparr>,
        \<lparr>original = [], english = str ''was'', strongs = Some (str ''H1961'')\<rparr>]"
    by (simp add: alignment_eval first_original_text_def)
  finally have a: "wordPairs True untagged_original_verse =
       [\<lparr>original = [], english = str ''the earth'', strongs = Some (str ''H0776'')\<rparr>,
        \<lparr>original = [], english = str ''was'', strongs = Some (str ''H1961'')\<rparr>]" .
  have b: "(str ''-'', Some (str ''H0853'')) \<in> set (verse_w gen_1_1)
     \<and> shouldSkipWord (str ''-'') (Some (str ''H0853''))
     \<and> (str ''. . .'', Some (str ''H1961'')) \<in> set (verse_w untagged_original_verse)
     \<and> shouldSkipWord (str ''. . .'') (Some (str ''H1961''))"
    by (simp add: alignment_eval)
  have c: "map english (wordPairs False gen_1_1) =
        [str ''In the beginning'', str ''God'', str ''created'', str ''the heavens'', str ''and'',
         str ''the earth'']"
    by (simp add: gen_1_1_english_order)
  from h0 a b c show ?thesis by simp
qed

subsection \<open>Original order\<close>

lemma scanEnglish_find:
  "scanEnglish xs (length pre) s used =
     (case find (\<lambda>j. snd ((pre @ xs) ! j) = s \<and> j \<notin> used)
             [length pre..<length pre + length xs] of
        None \<Rightarrow> ([], used)
      | Some j \<Rightarrow> (cleanText (fst ((pre @ xs) ! j)), insert j used))"
proof (induction xs arbitrary: pre)
  case Nil
  then show ?case by simp
next
  case (Cons x xs)
  obtain t es where x: "x = (t, es)" by (cases x)
  have "[length pre..<length pre + Suc (length xs)]
      = length pre # [Suc (length pre)..<length pre + Suc (length xs)]"
    by (rule upt_conv_Cons) simp
  then have upt: "[length pre..<length pre + length (x # xs)]
      = length pre # [length (pre @ [x])..<length (pre @ [x]) + length xs]"
    by simp
  have app: "pre @ x # xs = (pre @ [x]) @ xs" by simp
  show ?case
    unfolding upt app
    using Cons.IH [of "pre @ [x]"]
    by (simp add: x nth_append)
qed

lemma scanEnglish_first_unconsumed:
  "scanEnglish ws 0 s used =
     (english_of ws (first_unconsumed ws s used),
      case first_unconsumed ws s used of None \<Rightarrow> used | Some i \<Rightarrow> insert i used)"
  using scanEnglish_find [of ws "[]" s used]
  by (simp add: first_unconsumed_def english_of_def split: option.splits)

lemma alignOriginalOrder_consumed:
  "k \<le> length os \<Longrightarrow>
   alignOriginalOrder (drop k os) ws (consumed ws os k) =
     map (\<lambda>j. \<lparr>original = fst (os ! j),
                english = english_of ws (first_unconsumed ws (snd (os ! j)) (consumed ws os j)),
                strongs = snd (os ! j)\<rparr>) [k..<length os]"
proof (induction "length os - k" arbitrary: k)
  case 0
  then show ?case by simp
next
  case (Suc n)
  then have k: "k < length os" by simp
  obtain t s where e: "os ! k = (t, s)" by (cases "os ! k")
  have d: "drop k os = (t, s) # drop (Suc k) os"
    using k e Cons_nth_drop_Suc [of k os] by simp
  have u: "[k..<length os] = k # [Suc k..<length os]"
    using k by (simp add: upt_conv_Cons)
  have ih: "alignOriginalOrder (drop (Suc k) os) ws (consumed ws os (Suc k)) =
     map (\<lambda>j. \<lparr>original = fst (os ! j),
                english = english_of ws (first_unconsumed ws (snd (os ! j)) (consumed ws os j)),
                strongs = snd (os ! j)\<rparr>) [Suc k..<length os]"
    using Suc.hyps(1) [of "Suc k"] Suc.hyps(2) k by simp
  show ?case
    unfolding d u using ih
    by (simp add: scanEnglish_first_unconsumed e)
qed

lemma alignOriginalOrder_map:
  "alignOriginalOrder os ws {} =
     map (\<lambda>j. \<lparr>original = fst (os ! j),
                english = english_of ws (first_unconsumed ws (snd (os ! j)) (consumed ws os j)),
                strongs = snd (os ! j)\<rparr>) [0..<length os]"
  using alignOriginalOrder_consumed [of 0 os ws] by simp

lemma element_Some: "(element xs n = Some x) = (n < length xs \<and> xs ! n = x)"
  by (induction xs n rule: element.induct) auto

lemma element_None: "(element xs n = None) = (length xs \<le> n)"
  by (induction xs n rule: element.induct) auto

lemma find_filter: "find (\<lambda>i. P i \<and> Q i) xs = find Q (filter P xs)"
  by (induction xs) auto

lemma find_not_taken:
  "distinct xs \<Longrightarrow> find (\<lambda>i. i \<notin> set (take n xs)) xs = element xs n"
proof (induction xs arbitrary: n)
  case Nil
  then show ?case by simp
next
  case (Cons x xs)
  show ?case
  proof (cases n)
    case 0
    then show ?thesis by simp
  next
    case (Suc m)
    have "find (\<lambda>i. i \<noteq> x \<and> i \<notin> set (take m xs)) xs = find (\<lambda>i. i \<notin> set (take m xs)) xs"
      using Cons.prems by (intro find_cong) auto
    then show ?thesis
      using Cons.IH [of m] Cons.prems Suc by simp
  qed
qed

lemma occurrences_mem: "(i \<in> set (occurrences ws s)) = (i < length ws \<and> snd (ws ! i) = s)"
  by (auto simp: occurrences_def)

lemma occurrences_distinct: "distinct (occurrences ws s)"
  by (simp add: occurrences_def)

lemma occurrences_sorted: "sorted_wrt (<) (occurrences ws s)"
  unfolding occurrences_def by (rule sorted_wrt_filter) (simp add: sorted_wrt_upt)

lemma first_unconsumed_element:
  assumes "\<And>i. i < length ws \<Longrightarrow> snd (ws ! i) = s \<Longrightarrow>
             (i \<in> U) = (i \<in> set (take n (occurrences ws s)))"
  shows "first_unconsumed ws s U = element (occurrences ws s) n"
proof -
  have "first_unconsumed ws s U = find (\<lambda>i. i \<notin> U) (occurrences ws s)"
    by (simp add: first_unconsumed_def occurrences_def find_filter)
  also have "\<dots> = find (\<lambda>i. i \<notin> set (take n (occurrences ws s))) (occurrences ws s)"
    using assms by (intro find_cong) (auto simp: occurrences_mem)
  also have "\<dots> = element (occurrences ws s) n"
    by (rule find_not_taken) (rule occurrences_distinct)
  finally show ?thesis .
qed

lemma cnt_Suc:
  "k < length os \<Longrightarrow> cnt os s (Suc k) = cnt os s k + (if snd (os ! k) = s then 1 else 0)"
  by (simp add: cnt_def take_Suc_conv_app_nth)

lemma consumed_invariant:
  "k \<le> length os \<Longrightarrow>
   (i \<in> consumed ws os k) =
     (i < length ws \<and> i \<in> set (take (cnt os (snd (ws ! i)) k) (occurrences ws (snd (ws ! i)))))"
proof (induction k arbitrary: i)
  case 0
  then show ?case by (simp add: cnt_def)
next
  case (Suc k)
  then have k: "k < length os" by simp
  define s where "s = snd (os ! k)"
  define n where "n = cnt os s k"
  have ih: "\<And>j. (j \<in> consumed ws os k) =
     (j < length ws \<and> j \<in> set (take (cnt os (snd (ws ! j)) k) (occurrences ws (snd (ws ! j)))))"
    using Suc.IH k by simp
  have fu: "first_unconsumed ws s (consumed ws os k) = element (occurrences ws s) n"
    by (rule first_unconsumed_element) (simp add: ih n_def)
  show ?case
  proof (cases "snd (ws ! i) = s")
    case False
    have "(i \<in> consumed ws os (Suc k)) = (i \<in> consumed ws os k)"
    proof (cases "element (occurrences ws s) n")
      case None
      then show ?thesis using fu by (simp add: s_def)
    next
      case (Some j)
      then have "j \<in> set (occurrences ws s)"
        by (auto simp: element_Some)
      then have "j \<noteq> i" using False by (auto simp: occurrences_mem)
      then show ?thesis using fu Some by (auto simp: s_def)
    qed
    moreover have "cnt os (snd (ws ! i)) (Suc k) = cnt os (snd (ws ! i)) k"
      using False k by (auto simp: cnt_Suc s_def)
    ultimately show ?thesis using ih by simp
  next
    case True
    have c: "cnt os (snd (ws ! i)) (Suc k) = Suc n"
      using True k by (simp add: cnt_Suc s_def n_def)
    show ?thesis
    proof (cases "element (occurrences ws s) n")
      case None
      then have "length (occurrences ws s) \<le> n" by (simp add: element_None)
      then have "take (Suc n) (occurrences ws s) = take n (occurrences ws s)" by simp
      moreover have "(i \<in> consumed ws os (Suc k)) = (i \<in> consumed ws os k)"
        using fu None by (simp add: s_def)
      ultimately show ?thesis using ih [of i] True c by (simp add: n_def)
    next
      case (Some j)
      then have j: "n < length (occurrences ws s)" "occurrences ws s ! n = j"
        by (auto simp: element_Some)
      then have "take (Suc n) (occurrences ws s) = take n (occurrences ws s) @ [j]"
        by (simp add: take_Suc_conv_app_nth)
      moreover have "(i \<in> consumed ws os (Suc k)) = (i = j \<or> i \<in> consumed ws os k)"
        using fu Some by (simp add: s_def)
      moreover have "j < length ws"
        using j occurrences_mem [of j ws s] nth_mem [of n "occurrences ws s"] by simp
      ultimately show ?thesis using ih [of i] True c by (auto simp: n_def)
    qed
  qed
qed

lemma first_unconsumed_rank:
  assumes "k < length os"
  shows "first_unconsumed ws (snd (os ! k)) (consumed ws os k)
           = element (occurrences ws (snd (os ! k))) (rank os k)"
proof -
  have "first_unconsumed ws (snd (os ! k)) (consumed ws os k)
          = element (occurrences ws (snd (os ! k))) (cnt os (snd (os ! k)) k)"
    using assms by (intro first_unconsumed_element) (simp add: consumed_invariant)
  then show ?thesis by (simp add: cnt_def rank_def)
qed

lemma rank_less:
  assumes "j < k" "k < length os" "snd (os ! j) = snd (os ! k)"
  shows "rank os j < rank os k"
proof -
  have "take k os = take (Suc j + (k - Suc j)) os"
    using assms(1) by simp
  also have "\<dots> = take (Suc j) os @ take (k - Suc j) (drop (Suc j) os)"
    by (rule take_add)
  also have "take (Suc j) os = take j os @ [os ! j]"
    using assms(1,2) by (simp add: take_Suc_conv_app_nth)
  finally have "take k os = (take j os @ [os ! j]) @ take (k - Suc j) (drop (Suc j) os)" .
  then show ?thesis using assms(3) by (simp add: rank_def)
qed

text \<open>
  C1. Original order (the flag is on and the verse has original words), for a verse whose
  original words carry no empty Strong's number. Let \<open>os\<close> be the original entries whose
  number is non-null and whose text is not punctuation, in the order of the array. The
  output has one triple for each entry of \<open>os\<close>, in that order, with the entry's text
  and number. The \<open>english\<close> of the \<open>k\<close>-th triple is the cleaned text of the first
  English entry, from the left, that carries the same number and whose index no earlier
  triple has consumed, and the empty string when there is none. That entry is the
  English occurrence of the number whose position among the English occurrences equals
  the position of the \<open>k\<close>-th entry among the entries of \<open>os\<close> with that number. Hence
  two entries of \<open>os\<close> with the same number, when the English array has enough
  occurrences of it, bind to two different English occurrences, in left-to-right order.
\<close>

theorem original_order_alignment:
  assumes "originalWords vs \<noteq> []" and "strongs_nonempty (originalWords vs)"
  shows "let os = filter (\<lambda>(txt, s). s \<noteq> None \<and> \<not> isPunctuation txt) (originalWords vs);
             ws = verse_w vs;
             r = wordPairs True vs
         in length r = length os
          \<and> (\<forall>k < length os.
                original (r ! k) = fst (os ! k) \<and> strongs (r ! k) = snd (os ! k)
              \<and> english (r ! k) =
                  english_of ws (first_unconsumed ws (snd (os ! k)) (consumed ws os k))
              \<and> first_unconsumed ws (snd (os ! k)) (consumed ws os k) =
                  element (occurrences ws (snd (os ! k))) (rank os k))
          \<and> (\<forall>j k. j < k \<and> k < length os \<and> snd (os ! j) = snd (os ! k)
                  \<and> rank os k < length (occurrences ws (snd (os ! k))) \<longrightarrow>
                english (r ! j) = cleanText (fst (ws ! (occurrences ws (snd (os ! k)) ! rank os j)))
              \<and> english (r ! k) = cleanText (fst (ws ! (occurrences ws (snd (os ! k)) ! rank os k)))
              \<and> occurrences ws (snd (os ! k)) ! rank os j
                  < occurrences ws (snd (os ! k)) ! rank os k)"
proof -
  define os where "os = filter (\<lambda>(txt, s). s \<noteq> None \<and> \<not> isPunctuation txt) (originalWords vs)"
  define ws where "ws = verse_w vs"
  define r where "r = wordPairs True vs"
  have "filter (\<lambda>(txt, s). present s \<and> \<not> isPunctuation txt) (originalWords vs) = os"
    using filter_present [OF assms(2), of "\<lambda>txt s. \<not> isPunctuation txt"] by (simp add: os_def)
  then have "r = alignOriginalOrder os ws {}"
    using assms(1) by (simp add: r_def wordPairs_def ws_def)
  then have rmap: "r = map (\<lambda>j. \<lparr>original = fst (os ! j),
                english = english_of ws (first_unconsumed ws (snd (os ! j)) (consumed ws os j)),
                strongs = snd (os ! j)\<rparr>) [0..<length os]"
    by (simp add: alignOriginalOrder_map)
  have len: "length r = length os"
    by (simp add: rmap)
  have each: "\<forall>k < length os.
                original (r ! k) = fst (os ! k) \<and> strongs (r ! k) = snd (os ! k)
              \<and> english (r ! k) =
                  english_of ws (first_unconsumed ws (snd (os ! k)) (consumed ws os k))
              \<and> first_unconsumed ws (snd (os ! k)) (consumed ws os k) =
                  element (occurrences ws (snd (os ! k))) (rank os k)"
    by (simp add: rmap first_unconsumed_rank)
  have pair: "\<forall>j k. j < k \<and> k < length os \<and> snd (os ! j) = snd (os ! k)
                  \<and> rank os k < length (occurrences ws (snd (os ! k))) \<longrightarrow>
                english (r ! j) = cleanText (fst (ws ! (occurrences ws (snd (os ! k)) ! rank os j)))
              \<and> english (r ! k) = cleanText (fst (ws ! (occurrences ws (snd (os ! k)) ! rank os k)))
              \<and> occurrences ws (snd (os ! k)) ! rank os j
                  < occurrences ws (snd (os ! k)) ! rank os k"
  proof (intro allI impI)
    fix j k
    assume a: "j < k \<and> k < length os \<and> snd (os ! j) = snd (os ! k)
                  \<and> rank os k < length (occurrences ws (snd (os ! k)))"
    define occ where "occ = occurrences ws (snd (os ! k))"
    have rk: "rank os j < rank os k"
      using a by (simp add: rank_less)
    have lk: "rank os k < length occ"
      using a by (simp add: occ_def)
    have ej: "element occ (rank os j) = Some (occ ! rank os j)"
      using rk lk by (simp add: element_Some)
    have ek: "element occ (rank os k) = Some (occ ! rank os k)"
      using lk by (simp add: element_Some)
    have j: "j < length os" using a by simp
    have sj: "snd (os ! j) = snd (os ! k)" using a by simp
    have "english (r ! j) = english_of ws (first_unconsumed ws (snd (os ! j)) (consumed ws os j))"
      using j by (simp add: rmap)
    also have "first_unconsumed ws (snd (os ! j)) (consumed ws os j)
                 = element (occurrences ws (snd (os ! j))) (rank os j)"
      using j by (rule first_unconsumed_rank)
    finally have "english (r ! j) = english_of ws (element occ (rank os j))"
      by (simp add: sj occ_def)
    then have 1: "english (r ! j) = cleanText (fst (ws ! (occ ! rank os j)))"
      by (simp add: ej english_of_def)
    have "english (r ! k) = english_of ws (element occ (rank os k))"
      using each a by (simp add: occ_def)
    then have 2: "english (r ! k) = cleanText (fst (ws ! (occ ! rank os k)))"
      by (simp add: ek english_of_def)
    have 3: "occ ! rank os j < occ ! rank os k"
      using occurrences_sorted [of ws "snd (os ! k)"] rk lk
      by (simp add: occ_def sorted_wrt_nth_less)
    show "english (r ! j) = cleanText (fst (ws ! (occurrences ws (snd (os ! k)) ! rank os j)))
              \<and> english (r ! k) = cleanText (fst (ws ! (occurrences ws (snd (os ! k)) ! rank os k)))
              \<and> occurrences ws (snd (os ! k)) ! rank os j
                  < occurrences ws (snd (os ! k)) ! rank os k"
      using 1 2 3 by (simp add: occ_def)
  qed
  show ?thesis
    using len each pair unfolding Let_def os_def ws_def r_def by blast
qed

lemma gen_1_1_survivors:
  "filter (\<lambda>(txt, s). s \<noteq> None \<and> \<not> isPunctuation txt) (originalWords gen_1_1) =
     [([1489, 1512], Some (str ''H7225'')), ([1489, 1488], Some (str ''H1254'')),
      ([1488, 1500], Some (str ''H0430'')), ([1488, 1514], Some (str ''H0853'')),
      ([1513, 1502], Some (str ''H8064'')), ([1493, 1488, 1514], Some (str ''H0853'')),
      ([1488, 1512, 1509], Some (str ''H0776''))]"
  by (simp add: alignment_eval)

lemma gen_1_1_occurrences:
  "occurrences (verse_w gen_1_1) (Some (str ''H0853'')) = [3, 5]"
  by (simp add: occurrences_def gen_1_1_def str_def upt_rec)

lemma gen_1_1_repeated_number:
  "let os = filter (\<lambda>(txt, s). s \<noteq> None \<and> \<not> isPunctuation txt) (originalWords gen_1_1);
       ws = verse_w gen_1_1
   in (3::nat) < 5 \<and> 5 < length os \<and> snd (os ! 3) = snd (os ! 5)
      \<and> rank os 3 = 0 \<and> rank os 5 = 1 \<and> snd (os ! 5) = Some (str ''H0853'')
      \<and> rank os 5 < length (occurrences ws (snd (os ! 5)))"
  unfolding Let_def gen_1_1_survivors
  by (simp add: rank_def gen_1_1_occurrences) (simp add: str_def)

theorem original_order_alignment_witness:
  "originalWords gen_1_1 \<noteq> [] \<and> strongs_nonempty (originalWords gen_1_1)
   \<and> length (wordPairs True gen_1_1) = 7
   \<and> map english (wordPairs True gen_1_1) =
        [str ''In the beginning'', str ''created'', str ''God'', str ''-'', str ''the heavens'',
         str ''and'', str ''the earth'']
   \<and> english (wordPairs True gen_1_1 ! 3) = cleanText (fst (verse_w gen_1_1 ! 3))
   \<and> english (wordPairs True gen_1_1 ! 5) = cleanText (fst (verse_w gen_1_1 ! 5))"
proof -
  define os where
    "os = filter (\<lambda>(txt, s). s \<noteq> None \<and> \<not> isPunctuation txt) (originalWords gen_1_1)"
  define ws where "ws = verse_w gen_1_1"
  have h1: "originalWords gen_1_1 \<noteq> []"
    by (simp add: alignment_eval)
  have h2: "strongs_nonempty (originalWords gen_1_1)"
    by (simp add: alignment_eval)
  note t = original_order_alignment [OF h1 h2, unfolded Let_def, folded os_def ws_def]
  note g = gen_1_1_repeated_number [unfolded Let_def, folded os_def ws_def]
  have n: "length os = 7"
    unfolding os_def gen_1_1_survivors by simp
  have len: "length (wordPairs True gen_1_1) = 7"
    using t n by simp
  have e: "map english (wordPairs True gen_1_1) =
        [str ''In the beginning'', str ''created'', str ''God'', str ''-'', str ''the heavens'',
         str ''and'', str ''the earth'']"
    by (simp add: gen_1_1_original_order)
  have "english (wordPairs True gen_1_1 ! 3)
           = cleanText (fst (ws ! (occurrences ws (snd (os ! 5)) ! rank os 3)))
      \<and> english (wordPairs True gen_1_1 ! 5)
           = cleanText (fst (ws ! (occurrences ws (snd (os ! 5)) ! rank os 5)))"
    using t g by blast
  then have b: "english (wordPairs True gen_1_1 ! 3) = cleanText (fst (ws ! 3))
      \<and> english (wordPairs True gen_1_1 ! 5) = cleanText (fst (ws ! 5))"
    using g gen_1_1_occurrences by (simp add: ws_def)
  show ?thesis using h1 h2 len e b unfolding ws_def by blast
qed

section \<open>Properties of the concordance search\<close>

subsection \<open>The sort\<close>

lemma set_insert_sorted: "set (insert_sorted cmp x ys) = insert x (set ys)"
  by (induction ys) auto

lemma mset_insert_sorted: "mset (insert_sorted cmp x ys) = add_mset x (mset ys)"
  by (induction ys) auto

lemma mset_array_sort: "mset (array_sort cmp xs) = mset xs"
  by (induction xs) (auto simp: array_sort_def mset_insert_sorted)

lemma set_array_sort: "set (array_sort cmp xs) = set xs"
  using mset_array_sort [of cmp xs] by (metis set_mset_mset)

lemma safe_difference:
  "0 \<le> x \<Longrightarrow> x \<le> MAX_SAFE_INTEGER \<Longrightarrow> 0 \<le> y \<Longrightarrow> y \<le> MAX_SAFE_INTEGER \<Longrightarrow>
     safe_number (x - y) = Safe (x - y)"
  by (simp add: safe_number_def)

lemma safe_natural: "0 \<le> x \<Longrightarrow> x \<le> MAX_SAFE_INTEGER \<Longrightarrow> safe_number x = Safe x"
  by (simp add: safe_number_def)

lemma key_le_iff:
  "key_le a b =
     (\<exists>n1 c1 v1 n2 c2 v2.
        bookNumber a = Num n1 \<and> chapter_no a = Safe c1 \<and> verse a = Safe v1
      \<and> bookNumber b = Num n2 \<and> chapter_no b = Safe c2 \<and> verse b = Safe v2
      \<and> (n1 < n2 \<or> (n1 = n2 \<and> (c1 < c2 \<or> (c1 = c2 \<and> v1 \<le> v2)))))"
  by (cases "bookNumber a"; cases "chapter_no a"; cases "verse a";
      cases "bookNumber b"; cases "chapter_no b"; cases "verse b")
     (simp_all add: key_le_def)

lemma compare_key_le:
  assumes "numeric a" and "numeric b"
  shows "(sort_compare compareResults a b \<le> 0) = key_le a b"
proof -
  obtain n1 c1 v1 where a: "bookNumber a = Num n1" "int n1 \<le> MAX_SAFE_INTEGER"
      "chapter_no a = Safe c1" "0 \<le> c1" "c1 \<le> MAX_SAFE_INTEGER"
      "verse a = Safe v1" "0 \<le> v1" "v1 \<le> MAX_SAFE_INTEGER"
    using assms(1) by (auto simp: numeric_def)
  obtain n2 c2 v2 where b: "bookNumber b = Num n2" "int n2 \<le> MAX_SAFE_INTEGER"
      "chapter_no b = Safe c2" "0 \<le> c2" "c2 \<le> MAX_SAFE_INTEGER"
      "verse b = Safe v2" "0 \<le> v2" "v2 \<le> MAX_SAFE_INTEGER"
    using assms(2) by (auto simp: numeric_def)
  have d: "num_sub (to_number (bookNumber a)) (to_number (bookNumber b)) = Safe (int n1 - int n2)"
      "num_sub (chapter_no a) (chapter_no b) = Safe (c1 - c2)"
      "num_sub (verse a) (verse b) = Safe (v1 - v2)"
    using a b by (simp_all add: num_sub_def to_number_def safe_natural safe_difference)
  have c: "compareResults a b =
      js_or (js_or (Safe (int n1 - int n2)) (Safe (c1 - c2))) (Safe (v1 - v2))"
    by (simp only: compareResults_def d)
  have k: "key_le a b = (n1 < n2 \<or> (n1 = n2 \<and> (c1 < c2 \<or> (c1 = c2 \<and> v1 \<le> v2))))"
    using a b by (simp add: key_le_iff)
  show ?thesis
    by (auto simp: sort_compare_def c k js_or_def)
qed

lemma key_le_total: "numeric a \<Longrightarrow> numeric b \<Longrightarrow> \<not> key_le a b \<Longrightarrow> key_le b a"
  unfolding key_le_iff by (auto simp: numeric_def)

lemma key_le_trans:
  assumes "key_le a b" and "key_le b c"
  shows "key_le a c"
proof -
  obtain n1 c1 v1 n2 c2 v2 where ab:
      "bookNumber a = Num n1" "chapter_no a = Safe c1" "verse a = Safe v1"
      "bookNumber b = Num n2" "chapter_no b = Safe c2" "verse b = Safe v2"
      "n1 < n2 \<or> (n1 = n2 \<and> (c1 < c2 \<or> (c1 = c2 \<and> v1 \<le> v2)))"
    using assms(1) unfolding key_le_iff by blast
  obtain n3 c3 v3 where bc:
      "bookNumber c = Num n3" "chapter_no c = Safe c3" "verse c = Safe v3"
      "n2 < n3 \<or> (n2 = n3 \<and> (c2 < c3 \<or> (c2 = c3 \<and> v2 \<le> v3)))"
    using assms(2) ab(4,5,6) unfolding key_le_iff by auto
  have "n1 < n3 \<or> (n1 = n3 \<and> (c1 < c3 \<or> (c1 = c3 \<and> v1 \<le> v3)))"
    using ab(7) bc(4) by auto
  then show ?thesis
    unfolding key_le_iff using ab(1,2,3) bc(1,2,3) by simp
qed

lemma sorted_insert_sorted:
  "numeric x \<Longrightarrow> list_all numeric ys \<Longrightarrow> sorted_wrt key_le ys \<Longrightarrow>
     sorted_wrt key_le (insert_sorted compareResults x ys)"
proof (induction ys)
  case Nil
  then show ?case by simp
next
  case (Cons y ys)
  show ?case
  proof (cases "key_le x y")
    case True
    then have "\<forall>z\<in>set ys. key_le x z"
      using Cons.prems(3) key_le_trans by fastforce
    then show ?thesis using True Cons.prems by (simp add: compare_key_le)
  next
    case False
    then have "key_le y x" using Cons.prems key_le_total by auto
    then show ?thesis
      using False Cons by (auto simp: compare_key_le set_insert_sorted)
  qed
qed

lemma list_all_insert_sorted:
  "list_all P (insert_sorted cmp x ys) = (P x \<and> list_all P ys)"
  by (auto simp: list_all_iff set_insert_sorted)

lemma sorted_array_sort:
  "list_all numeric xs \<Longrightarrow>
     sorted_wrt key_le (array_sort compareResults xs) \<and> list_all numeric (array_sort compareResults xs)"
  by (induction xs) (auto simp: array_sort_def sorted_insert_sorted list_all_insert_sorted)

subsection \<open>Parsed references\<close>

lemma BOOK_CODES_bound: "list_all (\<lambda>(n, c). n \<le> 66) BOOK_CODES"
  by (simp add: BOOK_CODES_def)

lemma BOOK_NUMBERS_bound: "BOOK_NUMBERS k = Own n \<Longrightarrow> n \<le> 66"
proof -
  assume "BOOK_NUMBERS k = Own n"
  then have "map_of (rev (map (\<lambda>(num, code). (code, num)) BOOK_CODES)) k = Some n"
    by (auto simp: BOOK_NUMBERS_def object_get_def split: option.splits if_splits)
  then have "(k, n) \<in> set (rev (map (\<lambda>(num, code). (code, num)) BOOK_CODES))"
    by (rule map_of_SomeD)
  then have "(n, k) \<in> set BOOK_CODES"
    by auto
  then show "n \<le> 66"
    using BOOK_CODES_bound by (auto simp: list_all_iff)
qed

lemma BOOK_NUMBERS_unknown:
  "c \<notin> set (map snd BOOK_CODES) \<Longrightarrow> c \<notin> set object_prototype_names \<Longrightarrow>
     BOOK_NUMBERS c = Undefined"
proof -
  assume c: "c \<notin> set (map snd BOOK_CODES)" and p: "c \<notin> set object_prototype_names"
  have "map_of (rev (map (\<lambda>(num, code). (code, num)) BOOK_CODES)) c = None"
    using c by (force simp: map_of_eq_None_iff image_iff)
  then show ?thesis
    using p by (simp add: BOOK_NUMBERS_def object_get_def)
qed

lemma BOOK_NUMBERS_inherited:
  "(BOOK_NUMBERS c = Inherited) \<Longrightarrow> c \<in> set object_prototype_names"
  by (auto simp: BOOK_NUMBERS_def object_get_def split: option.splits if_splits)

lemma or_number_numeric:
  "c \<notin> set object_prototype_names \<Longrightarrow>
     \<exists>n. or_number (BOOK_NUMBERS c) d = Num n \<and> n \<le> max d 66"
proof (cases "BOOK_NUMBERS c")
  case Undefined
  then show ?thesis by (simp add: or_number_def)
next
  case (Own n)
  then show ?thesis using BOOK_NUMBERS_bound [OF Own] by (auto simp: or_number_def)
next
  case Inherited
  assume "c \<notin> set object_prototype_names"
  then show ?thesis using BOOK_NUMBERS_inherited [OF Inherited] by simp
qed

lemma split_on_first: "element (split_on d s) 0 \<noteq> None"
  by (induction s) (auto split: list.splits)

lemma parseInt_safe: "parseInt s = Safe c \<Longrightarrow> c \<le> MAX_SAFE_INTEGER"
  by (auto simp: parseInt_def signed_def safe_number_def
      split: list.splits if_splits option.splits)

lemma parseInt_opt_safe: "parseInt_opt x = Safe c \<Longrightarrow> c \<le> MAX_SAFE_INTEGER"
  by (auto simp: parseInt_opt_def parseInt_safe split: option.splits)

lemma natural_number_safe:
  "natural_number (parseInt_opt x) \<Longrightarrow>
     \<exists>c. parseInt_opt x = Safe c \<and> 0 \<le> c \<and> c \<le> MAX_SAFE_INTEGER"
  by (cases "parseInt_opt x") (auto simp: natural_number_def parseInt_opt_safe)

lemma numeric_parseRef: "well_formed_ref ref \<Longrightarrow> numeric (parseRef ref)"
proof -
  assume w: "well_formed_ref ref"
  then obtain n where "or_number (BOOK_NUMBERS (or_empty (element (split_on 46 ref) 0))) 0 = Num n"
      "n \<le> 66"
    using or_number_numeric [of "or_empty (element (split_on 46 ref) 0)" 0]
    by (auto simp: well_formed_ref_def)
  then have "\<exists>n. bookNumber (parseRef ref) = Num n \<and> int n \<le> MAX_SAFE_INTEGER"
    by (simp add: parseRef_def Let_def MAX_SAFE_INTEGER_def)
  then show ?thesis
    using w natural_number_safe
    by (simp add: numeric_def well_formed_ref_def parseRef_def Let_def)
qed

lemma searchConcordance_Some:
  "m (toUpperCase sn) = Some refs \<Longrightarrow>
     searchConcordance toUpperCase (Some m) sn = array_sort compareResults (map parseRef refs)"
  by (cases refs) (auto simp: searchConcordance_def array_sort_def)

lemma sorted_search:
  "m (toUpperCase sn) = Some refs \<Longrightarrow> list_all well_formed_ref refs \<Longrightarrow>
     sorted_wrt key_le (searchConcordance toUpperCase (Some m) sn)"
  using sorted_array_sort [of "map parseRef refs"]
  by (simp add: searchConcordance_Some list_all_iff numeric_parseRef)

lemma element_numeral: "element (x # xs) (numeral n) = element xs (pred_numeral n)"
  by (simp add: numeral_eq_Suc)

lemmas concordance_eval =
  element_numeral searchConcordance_def searchConcordance_old_def array_sort_def parseRef_def
  Let_def str_def ascii_upper_def compareResults_def js_or_def num_sub_def to_number_def
  sort_compare_def or_number_def or_empty_def BOOK_NUMBERS_def object_get_def
  object_prototype_names_def BOOK_CODES_def parseInt_opt_def parseInt_def signed_def
  safe_number_def MAX_SAFE_INTEGER_def parse_unsigned_def parse_digits_def digits_value_def
  is_digit_def digit_value_def is_space_def white_space_def startsWith_def array_includes_def
  num_ge_def num_le_def well_formed_ref_def natural_number_def
  example_concordance_def example_refs_def example_index_def

lemma example_sorted:
  "map ref_id (searchConcordance ascii_upper (Some example_concordance) (str ''h0001''))
     = [str ''XXX.9.9'', str ''GEN.1.5'', str ''GEN.2.3'', str ''MAT.1.1'']"
  by (simp add: concordance_eval)

lemma example_key: "example_concordance (ascii_upper (str ''h0001'')) = Some example_refs"
  by (simp add: example_concordance_def ascii_upper_def str_def)

lemma example_absent_key: "example_concordance (ascii_upper (str ''g0976'')) = None"
  by (simp add: example_concordance_def ascii_upper_def str_def)

lemma example_well_formed: "list_all well_formed_ref example_refs"
  by (simp add: concordance_eval)

text \<open>
  C7. A key that is absent from the concordance map gives the empty list. For a key that
  is present with a list of verse references (each with a book code that is no inherited
  property name of the table object, and a chapter and a verse that parse as safe
  integers that are not negative), in whatever order the list is, the result is the list
  of the parsed references rearranged so that the tuples (bookNumber, chapter, verse)
  are non-decreasing in lexicographic order.
\<close>

theorem searchConcordance_sorted:
  "(m (toUpperCase sn) = None \<longrightarrow> searchConcordance toUpperCase (Some m) sn = [])
   \<and> (\<forall>refs. m (toUpperCase sn) = Some refs \<and> list_all well_formed_ref refs \<longrightarrow>
         sorted_wrt key_le (searchConcordance toUpperCase (Some m) sn)
         \<and> mset (searchConcordance toUpperCase (Some m) sn) = mset (map parseRef refs))"
proof (intro conjI allI impI)
  assume "m (toUpperCase sn) = None"
  then show "searchConcordance toUpperCase (Some m) sn = []"
    by (simp add: searchConcordance_def)
next
  fix refs
  assume a: "m (toUpperCase sn) = Some refs \<and> list_all well_formed_ref refs"
  then show "sorted_wrt key_le (searchConcordance toUpperCase (Some m) sn)"
    by (simp add: sorted_search)
  show "mset (searchConcordance toUpperCase (Some m) sn) = mset (map parseRef refs)"
    using a by (simp add: searchConcordance_Some mset_array_sort)
qed

theorem searchConcordance_sorted_witness:
  "example_concordance (ascii_upper (str ''g0976'')) = None
   \<and> searchConcordance ascii_upper (Some example_concordance) (str ''g0976'') = []
   \<and> example_concordance (ascii_upper (str ''h0001'')) = Some example_refs
   \<and> list_all well_formed_ref example_refs
   \<and> sorted_wrt key_le (searchConcordance ascii_upper (Some example_concordance) (str ''h0001''))
   \<and> map ref_id (searchConcordance ascii_upper (Some example_concordance) (str ''h0001''))
       = [str ''XXX.9.9'', str ''GEN.1.5'', str ''GEN.2.3'', str ''MAT.1.1'']"
proof -
  have a: "searchConcordance ascii_upper (Some example_concordance) (str ''g0976'') = []"
    using searchConcordance_sorted [of example_concordance ascii_upper "str ''g0976''"]
      example_absent_key by blast
  have b: "sorted_wrt key_le
             (searchConcordance ascii_upper (Some example_concordance) (str ''h0001''))"
    using searchConcordance_sorted [of example_concordance ascii_upper "str ''h0001''"]
      example_key example_well_formed by blast
  show ?thesis
    using a b example_absent_key example_key example_well_formed example_sorted by blast
qed

subsection \<open>References with an unknown book code\<close>



lemma inherited_name_parsed:
  "parseRef (str ''toString.2.1'') =
     \<lparr>bookCode = str ''toString'', bookNumber = Obj, chapter_no = Safe 2, verse = Safe 1,
      ref_id = str ''toString.2.1''\<rparr>"
  by (simp add: concordance_eval)







subsection \<open>Testament consistency\<close>

lemma old_testament_number:
  "(num_ge x 1 \<and> num_le x 39) = (\<exists>n. x = Num n \<and> 1 \<le> n \<and> n \<le> 39)"
  by (cases x) (auto simp: num_ge_def num_le_def)

lemma scanIndex_testament:
  "r \<in> set (scanIndex isHebrew normalized idx) \<Longrightarrow>
     isHebrew = (num_ge (bookNumber r) 1 \<and> num_le (bookNumber r) 39)"
  by (induction idx) (auto simp: Let_def split: if_splits)

lemma startsWith_G_not_H: "startsWith s (str ''G'') \<Longrightarrow> \<not> startsWith s (str ''H'')"
  by (simp add: startsWith_def str_def)

text \<open>
  C6, as stated, at a concordance map that lists a Matthew reference under a Hebrew
  number: the search of bsbDataApi.ts returns it, with \<open>bookNumber\<close> 40. The function
  reads the list stored under the key and filters nothing.
\<close>

theorem searchConcordance_cross_testament_counterexample:
  "startsWith (ascii_upper (str ''H0001'')) (str ''H'')
   \<and> map bookNumber (searchConcordance ascii_upper
        (Some [str ''H0001'' \<mapsto> [str ''MAT.1.1'']]) (str ''H0001'')) = [Num 40]"
  by (simp add: concordance_eval)

text \<open>
  C6, amended. The index scan of the older copy returns only results with \<open>bookNumber\<close>
  from 1 to 39 for a number whose upper-case form starts with \<^verbatim>\<open>H\<close>, and no such result
  for a number whose upper-case form starts with \<^verbatim>\<open>G\<close>. The search of bsbDataApi.ts
  returns a result for every reference listed under the key: the book numbers of its
  results are exactly the book numbers of the listed references, so its results are
  consistent with the testament of the number exactly when the listed references are.
\<close>

theorem searchConcordance_testament:
  "(\<forall>r \<in> set (searchConcordance_old toUpperCase indexCache sn).
      (startsWith (toUpperCase sn) (str ''H'') \<longrightarrow>
         (\<exists>n. bookNumber r = Num n \<and> 1 \<le> n \<and> n \<le> 39))
    \<and> (startsWith (toUpperCase sn) (str ''G'') \<longrightarrow>
         \<not> (\<exists>n. bookNumber r = Num n \<and> 1 \<le> n \<and> n \<le> 39)))
   \<and> (\<forall>refs. m (toUpperCase sn) = Some refs \<longrightarrow>
         bookNumber ` set (searchConcordance toUpperCase (Some m) sn)
           = (\<lambda>ref. bookNumber (parseRef ref)) ` set refs)"
proof (intro conjI ballI allI impI)
  fix r
  assume r: "r \<in> set (searchConcordance_old toUpperCase indexCache sn)"
  then have "startsWith (toUpperCase sn) (str ''H'')
                  = (num_ge (bookNumber r) 1 \<and> num_le (bookNumber r) 39)"
    using scanIndex_testament [of r "startsWith (toUpperCase sn) (str ''H'')" "toUpperCase sn" indexCache]
    by (simp add: searchConcordance_old_def set_array_sort Let_def)
  then have t: "startsWith (toUpperCase sn) (str ''H'')
                  = (\<exists>n. bookNumber r = Num n \<and> 1 \<le> n \<and> n \<le> 39)"
    by (simp only: old_testament_number)
  { assume "startsWith (toUpperCase sn) (str ''H'')"
    then show "\<exists>n. bookNumber r = Num n \<and> 1 \<le> n \<and> n \<le> 39" using t by simp }
  { assume "startsWith (toUpperCase sn) (str ''G'')"
    then show "\<not> (\<exists>n. bookNumber r = Num n \<and> 1 \<le> n \<and> n \<le> 39)"
      using t startsWith_G_not_H by blast }
next
  fix refs
  assume "m (toUpperCase sn) = Some refs"
  then show "bookNumber ` set (searchConcordance toUpperCase (Some m) sn)
           = (\<lambda>ref. bookNumber (parseRef ref)) ` set refs"
    by (simp add: searchConcordance_Some set_array_sort image_image)
qed

lemma example_old_hebrew:
  "startsWith (ascii_upper (str ''h0001'')) (str ''H'')
   \<and> searchConcordance_old ascii_upper example_index (str ''h0001'') =
       [\<lparr>bookCode = str ''GEN'', bookNumber = Num 1, chapter_no = Safe 2, verse = Safe 3,
         verse_text = str ''Then God blessed''\<rparr>]"
  by (simp add: concordance_eval)

lemma example_old_greek:
  "startsWith (ascii_upper (str ''g0976'')) (str ''G'')
   \<and> searchConcordance_old ascii_upper example_index (str ''g0976'') =
       [\<lparr>bookCode = str ''MAT'', bookNumber = Num 40, chapter_no = Safe 1, verse = Safe 1,
         verse_text = str ''The record''\<rparr>]"
  by (simp add: concordance_eval)

theorem searchConcordance_testament_witness:
  "startsWith (ascii_upper (str ''h0001'')) (str ''H'')
   \<and> \<lparr>bookCode = str ''GEN'', bookNumber = Num 1, chapter_no = Safe 2, verse = Safe 3,
       verse_text = str ''Then God blessed''\<rparr>
        \<in> set (searchConcordance_old ascii_upper example_index (str ''h0001''))
   \<and> (1::nat) \<le> 1 \<and> (1::nat) \<le> 39
   \<and> startsWith (ascii_upper (str ''g0976'')) (str ''G'')
   \<and> \<lparr>bookCode = str ''MAT'', bookNumber = Num 40, chapter_no = Safe 1, verse = Safe 1,
       verse_text = str ''The record''\<rparr>
        \<in> set (searchConcordance_old ascii_upper example_index (str ''g0976''))
   \<and> \<not> ((1::nat) \<le> 40 \<and> (40::nat) \<le> 39)
   \<and> example_concordance (ascii_upper (str ''h0001'')) = Some example_refs
   \<and> bookNumber ` set (searchConcordance ascii_upper (Some example_concordance) (str ''h0001''))
       = (\<lambda>ref. bookNumber (parseRef ref)) ` set example_refs"
proof -
  have "bookNumber ` set (searchConcordance ascii_upper (Some example_concordance) (str ''h0001''))
       = (\<lambda>ref. bookNumber (parseRef ref)) ` set example_refs"
    using searchConcordance_testament [of ascii_upper example_index "str ''h0001''" example_concordance]
      example_key by blast
  then show ?thesis
    using example_old_hebrew example_old_greek example_key by simp
qed

subsection \<open>Unresolvable book codes\<close>

lemma getBookNumber_unresolvable:
  "normalizeBookCode toUpperCase c = Null \<Longrightarrow> getBookNumber toUpperCase c = Num 0"
  by (simp add: getBookNumber_def)

lemma normalizeBookCode_Null:
  "map_of BOOK_ALIASES (toUpperCase c) = None \<Longrightarrow>
   toUpperCase c \<notin> set object_prototype_names \<Longrightarrow> normalizeBookCode toUpperCase c = Null"
  by (simp add: normalizeBookCode_def object_get_def)

lemma getBookNumber_old_noncanonical:
  "c \<notin> set (map snd BOOK_CODES) \<Longrightarrow> c \<notin> set object_prototype_names \<Longrightarrow>
     getBookNumber_old c = Num 1"
  using BOOK_NUMBERS_unknown [of c] by (simp add: getBookNumber_old_def or_number_def)

text \<open>
  \<open>getBookNumber\<close> of bsbDataApi.ts returns 1 for the codes that resolve to Genesis
  only.
\<close>

lemma BOOK_NUMBERS_one: "BOOK_NUMBERS a = Own (Suc 0) \<Longrightarrow> a = str ''GEN''"
  by (simp add: BOOK_NUMBERS_def object_get_def BOOK_CODES_def str_def
      split: if_splits option.splits)

lemma getBookNumber_one:
  "getBookNumber toUpperCase c = Num 1 \<Longrightarrow>
     normalizeBookCode toUpperCase c = Book_code (str ''GEN'')"
  using BOOK_NUMBERS_one
  by (auto simp: getBookNumber_def or_number_def
      split: normalized_code.splits property.splits if_splits)

text \<open>
  C8, at the code \<^verbatim>\<open>XYZ\<close>, which is no canonical code and no alias: \<open>getBookNumber\<close> of
  bsbDataApi.ts returns 0, and \<open>getBookNumber\<close> of the older copy returns 1, the number
  of Genesis.
\<close>

theorem getBookNumber_old_unresolvable:
  "str ''XYZ'' \<notin> set (map snd BOOK_CODES)
   \<and> map_of BOOK_ALIASES (ascii_upper (str ''XYZ'')) = None
   \<and> getBookNumber ascii_upper (str ''XYZ'') = Num 0
   \<and> getBookNumber_old (str ''XYZ'') = Num 1
   \<and> getBookNumber_old (str ''GEN'') = Num 1"
  by (simp add: getBookNumber_old_def getBookNumber_def normalizeBookCode_def BOOK_ALIASES_def
      concordance_eval)

end
